(* ===== verification/Codec_Prelude.thy ===== *)
theory Codec_Prelude
  imports Main "HOL-Library.Word"
begin

text \<open>
  Shared vocabulary of the development: the machine integer types of the Rust source
  (\<open>src/src/lib.rs\<close>), the outcome types that make every \<open>Err\<close> return and every panic
  of the program a value, the collections of facts the component theories feed to the
  simplifier, and the list lemmas (slices of a buffer, zero-filled arrays) that the
  cursor and the decoder share.
\<close>

unbundle bit_operations_syntax

section \<open>Machine integers\<close>

text \<open>
  Rust's \<open>u8\<close>, \<open>u16\<close>, \<open>u32\<close> and \<open>u64\<close> are words of that width. \<open>i32\<close> is a 32-bit
  word as well; its value is read with \<open>sint\<close>. \<open>usize\<close> and \<open>isize\<close> are taken to be
  64 bits wide (a 64-bit target), so \<open>n as usize\<close> is the identity on a \<open>u64\<close>.
\<close>

type_synonym u8 = "8 word"
type_synonym u16 = "16 word"
type_synonym u32 = "32 word"
type_synonym u64 = "64 word"
type_synonym i32 = "32 word"
type_synonym bytes = "u8 list"

section \<open>Results and panics\<close>

text \<open>
  \<open>Result<T, E>\<close> of the source, with its constructors. A call that may panic returns an
  \<open>outcome\<close>: either it \<open>Returns\<close> a value or it \<open>Panics\<close>, and a panic ends the whole
  computation (\<open>and_then\<close> propagates it, as unwinding does). The panics of the program
  are the capacity overflow of an allocation and the \<open>todo!()\<close> of an unimplemented
  method.
\<close>

datatype ('a, 'e) result = Ok 'a | Err 'e

datatype panic = CapacityOverflow | NotYetImplemented

datatype 'a outcome = Returns 'a | Panics panic

fun and_then :: "'a outcome \<Rightarrow> ('a \<Rightarrow> 'b outcome) \<Rightarrow> 'b outcome" where
  "and_then (Returns x) f = f x"
| "and_then (Panics p) f = Panics p"

fun map_err :: "('e \<Rightarrow> 'f) \<Rightarrow> ('a, 'e) result \<Rightarrow> ('a, 'f) result" where
  "map_err f (Ok x) = Ok x"
| "map_err f (Err e) = Err (f e)"

fun is_Ok :: "('a, 'e) result \<Rightarrow> bool" where
  "is_Ok (Ok x) = True"
| "is_Ok (Err e) = False"

fun returns :: "'a outcome \<Rightarrow> bool" where
  "returns (Returns x) = True"
| "returns (Panics p) = False"

section \<open>Fact collections\<close>

named_theorems codec_eval
  "equations that unfold an operation at a numeral argument, for evaluating closed terms"
named_theorems cursor_simps
  "how the cursor operations act on position and remaining bytes"
named_theorems wire_length
  "lengths of encoded fields"

section \<open>Panic propagation\<close>

lemma and_then_Returns_iff:
  "and_then m f = Returns y \<longleftrightarrow> (\<exists>x. m = Returns x \<and> f x = Returns y)"
  by (cases m) auto

lemma and_then_Panics_iff:
  "and_then m f = Panics p \<longleftrightarrow> m = Panics p \<or> (\<exists>x. m = Returns x \<and> f x = Panics p)"
  by (cases m) auto

lemma and_then_assoc:
  "and_then (and_then m f) g = and_then m (\<lambda>x. and_then (f x) g)"
  by (cases m) auto

lemma returns_iff: "returns m \<longleftrightarrow> (\<exists>x. m = Returns x)"
  by (cases m) auto

lemma is_Ok_iff: "is_Ok r \<longleftrightarrow> (\<exists>x. r = Ok x)"
  by (cases r) auto

section \<open>Slices and zero-filled arrays\<close>

text \<open>
  A buffer read is a \<open>take\<close> of a \<open>drop\<close>. When what remains of the buffer starts with a
  known field, the read returns that field and what remains after it is the rest.
\<close>

lemma drop_add_eq_append:
  assumes "drop p xs = ys @ zs"
  shows "drop (p + length ys) xs = zs"
proof -
  have "drop (p + length ys) xs = drop (length ys) (drop p xs)"
    by (simp add: add.commute)
  with assms show ?thesis by simp
qed

lemma drop_eq_append_le:
  assumes "drop p xs = ys @ zs"
  shows "p + length ys + length zs = length xs \<or> (ys = [] \<and> zs = [] \<and> length xs \<le> p)"
proof -
  from assms have "length xs - p = length ys + length zs"
    by (metis length_append length_drop)
  then show ?thesis by (cases "length xs \<le> p") auto
qed

lemma replicate_numeral:
  "replicate (numeral k) x = x # replicate (pred_numeral k) x"
  by (simp add: numeral_eq_Suc)

lemma rev_replicate_zero [simp]: "rev (replicate n (0::u8)) = replicate n 0"
  by (rule rev_replicate)

lemma bit_u8_high [simp]: "8 \<le> n \<Longrightarrow> \<not> bit (b :: u8) n"
  by (auto dest: bit_imp_le_length)

section \<open>Width facts\<close>

lemma unat_u8_less: "unat (b :: u8) < 256"
  using unsigned_less [of b, where ?'a = nat] by simp

lemma unat_u16_less: "unat (w :: u16) < 65536"
  using unsigned_less [of w, where ?'a = nat] by simp

lemma unat_u32_less: "unat (w :: u32) < 4294967296"
  using unsigned_less [of w, where ?'a = nat] by simp

lemma unat_u64_less: "unat (w :: u64) < 18446744073709551616"
  using unsigned_less [of w, where ?'a = nat] by simp

lemma unat_ucast_up:
  "LENGTH('a) \<le> LENGTH('b) \<Longrightarrow> unat (ucast (w :: 'a::len word) :: 'b::len word) = unat w"
  by (simp add: unsigned_ucast_eq take_bit_nat_eq_self_iff
      order_less_le_trans [OF unsigned_less])

lemma unat_ucast_u8_u64 [simp]: "unat (ucast (b :: u8) :: u64) = unat b"
  by (simp add: unat_ucast_up)

lemma unat_ucast_u16_u64 [simp]: "unat (ucast (w :: u16) :: u64) = unat w"
  by (simp add: unat_ucast_up)

lemma unat_ucast_u32_u64 [simp]: "unat (ucast (w :: u32) :: u64) = unat w"
  by (simp add: unat_ucast_up)

lemma ucast_of_nat_up:
  assumes "n < 2 ^ LENGTH('a)" and "LENGTH('a) \<le> LENGTH('b)"
  shows "ucast (of_nat n :: 'a::len word) = (of_nat n :: 'b::len word)"
proof -
  have "n < 2 ^ LENGTH('b)"
    using assms by (meson order_less_le_trans one_le_numeral power_increasing)
  then show ?thesis using assms
    by (intro word_unat_eq_iff [THEN iffD2]) (simp add: unat_ucast_up unat_of_nat)
qed

lemma u8_marker_cases: "(m :: u8) \<le> 252 \<or> m = 253 \<or> m = 254 \<or> m = 255"
proof -
  have "unat m \<le> 252 \<or> unat m = 253 \<or> unat m = 254 \<or> unat m = 255"
    using unat_u8_less [of m] by arith
  then show ?thesis
    by (simp add: word_le_nat_alt word_unat_eq_iff)
qed

end
