(* ===== verification/Le_Bytes.thy ===== *)
theory Le_Bytes
  imports Codec_Prelude
begin

text \<open>
  Little-endian byte strings of fixed-width integers: the standard library's
  \<open>from_le_bytes\<close> and \<open>to_le_bytes\<close>, which \<open>src/src/lib.rs\<close> calls on every integer
  field it reads (\<open>u16\<close>, \<open>u32\<close>, \<open>u64\<close>, \<open>i32\<close>) and writes (\<open>i32\<close>, \<open>u32\<close>). Both are
  defined once for every width; the byte count is the length of the list on the way in
  and an explicit argument on the way out. The lemmas characterise both bit by bit and
  derive the two round trips from that.
\<close>

section \<open>Definitions\<close>

fun from_le_bytes :: "bytes \<Rightarrow> 'a::len word" where
  "from_le_bytes [] = 0"
| "from_le_bytes (b # bs) = ucast b OR push_bit 8 (from_le_bytes bs)"

fun to_le_bytes :: "nat \<Rightarrow> 'a::len word \<Rightarrow> bytes" where
  "to_le_bytes 0 w = []"
| "to_le_bytes (Suc n) w = ucast w # to_le_bytes n (drop_bit 8 w)"

section \<open>Evaluation\<close>

lemma to_le_bytes_numeral [codec_eval]:
  "to_le_bytes (numeral k) w = ucast w # to_le_bytes (pred_numeral k) (drop_bit 8 w)"
  by (simp add: numeral_eq_Suc)

section \<open>Bitwise characterisation\<close>

lemma length_to_le_bytes [simp, wire_length]: "length (to_le_bytes n w) = n"
  by (induction n arbitrary: w) auto

lemma to_le_bytes_nth:
  "i < n \<Longrightarrow> to_le_bytes n w ! i = ucast (drop_bit (8 * i) w)"
proof (induction n arbitrary: w i)
  case 0
  then show ?case by simp
next
  case (Suc n)
  show ?case
  proof (cases i)
    case 0
    then show ?thesis by simp
  next
    case (Suc j)
    with Suc.prems have "j < n" by simp
    then have "to_le_bytes n (drop_bit 8 w) ! j = ucast (drop_bit (8 * j) (drop_bit 8 w))"
      by (rule Suc.IH)
    with Suc show ?thesis by (simp add: add.commute)
  qed
qed

lemma from_le_bytes_to_le_bytes_take_bit:
  "from_le_bytes (to_le_bytes n w) = take_bit (8 * n) w"
proof (induction n arbitrary: w)
  case 0
  show ?case by simp
next
  case (Suc n)
  have "ucast (ucast w :: u8) OR push_bit 8 (take_bit (8 * n) (drop_bit 8 w))
      = take_bit (8 * Suc n) w"
    by (rule bit_eqI) (auto simp add: bit_simps)
  with Suc show ?case by simp
qed

lemma bit_from_le_bytes:
  "bit (from_le_bytes bs :: 'a::len word) k \<longleftrightarrow>
     k < LENGTH('a) \<and> k div 8 < length bs \<and> bit (bs ! (k div 8)) (k mod 8)"
proof (induction bs arbitrary: k)
  case Nil
  show ?case by simp
next
  case (Cons b bs)
  show ?case
  proof (cases "k < 8")
    case True
    then show ?thesis by (auto simp add: bit_simps)
  next
    case False
    then have k: "k div 8 = Suc ((k - 8) div 8)" "k mod 8 = (k - 8) mod 8"
      by (simp_all add: le_div_geq le_mod_geq)
    from False show ?thesis
      by (auto simp add: bit_simps Cons.IH k dest: bit_imp_le_length)
  qed
qed

section \<open>Round trips\<close>

lemma from_le_bytes_to_le_bytes:
  "LENGTH('a) \<le> 8 * n \<Longrightarrow> from_le_bytes (to_le_bytes n w) = (w :: 'a::len word)"
  by (simp add: from_le_bytes_to_le_bytes_take_bit take_bit_word_eq_self)

lemma to_le_bytes_from_le_bytes:
  assumes "8 * length bs \<le> LENGTH('a)"
  shows "to_le_bytes (length bs) (from_le_bytes bs :: 'a::len word) = bs"
proof (rule nth_equalityI)
  show "length (to_le_bytes (length bs) (from_le_bytes bs :: 'a word)) = length bs"
    by simp
next
  fix i
  assume "i < length (to_le_bytes (length bs) (from_le_bytes bs :: 'a word))"
  then have i: "i < length bs" by simp
  have "ucast (drop_bit (8 * i) (from_le_bytes bs :: 'a word)) = bs ! i"
  proof (rule bit_eqI)
    fix k
    assume "possible_bit TYPE(u8) k"
    then have k: "k < 8" by simp
    with i assms have "8 * i + k < LENGTH('a)" by simp
    with k i show "bit (ucast (drop_bit (8 * i) (from_le_bytes bs :: 'a word)) :: u8) k
        \<longleftrightarrow> bit (bs ! i) k"
      by (simp add: bit_simps bit_from_le_bytes)
  qed
  with i show "to_le_bytes (length bs) (from_le_bytes bs :: 'a word) ! i = bs ! i"
    by (simp add: to_le_bytes_nth)
qed

lemma from_le_bytes_replicate_zero [simp]:
  "from_le_bytes (replicate n (0::u8)) = (0 :: 'a::len word)"
  by (rule bit_eqI) (simp add: bit_from_le_bytes)

lemma from_le_bytes_inject:
  assumes "length bs = length cs" and "8 * length bs \<le> LENGTH('a)"
    and "(from_le_bytes bs :: 'a::len word) = from_le_bytes cs"
  shows "bs = cs"
proof -
  have "bs = to_le_bytes (length bs) (from_le_bytes bs :: 'a word)"
    using assms(2) by (simp only: to_le_bytes_from_le_bytes)
  also have "\<dots> = to_le_bytes (length cs) (from_le_bytes cs :: 'a word)"
    by (simp only: assms(1,3))
  also have "\<dots> = cs"
    using assms(1,2) by (simp only: to_le_bytes_from_le_bytes)
  finally show ?thesis .
qed

end
