(* ===== verification/Cursor.thy ===== *)
theory Cursor
  imports Codec_Prelude
begin

text \<open>
  The read cursor the decoder works through: \<open>std::io::Cursor<&[u8]>\<close>, a borrowed
  buffer and a position, with the one operation the source calls on it, \<open>read_exact\<close>.
  The source never looks at the \<open>Result\<close> of a read (\<open>let _ = cursor.read_exact(..)\<close>),
  so what a failed read leaves behind matters: the caller's buffer is left as it was
  and the position moves to the end of the data (the behaviour of the standard library
  since Rust 1.80; the buffer is untouched in every release). \<open>read_array\<close> is the
  source's idiom around it: a zeroed array, a read into it, the result dropped.
  The lemmas give the cursor invariant (the position stays inside the buffer and never
  moves back, the buffer is never changed), the two outcomes of a read, and the view of
  a read as consuming a prefix of the remaining bytes, which is what the decoder's
  theorems use.
\<close>

section \<open>State and operations\<close>

datatype io_error = UnexpectedEof

record cursor =
  inner :: bytes
  pos :: nat

definition cursor_new :: "bytes \<Rightarrow> cursor" where
  "cursor_new data = \<lparr>inner = data, pos = 0\<rparr>"

definition remaining_slice :: "cursor \<Rightarrow> bytes" where
  "remaining_slice c = drop (pos c) (inner c)"

definition read_exact :: "bytes \<Rightarrow> cursor \<Rightarrow> (unit, io_error) result \<times> bytes \<times> cursor" where
  "read_exact buf c =
     (if length buf \<le> length (remaining_slice c)
      then (Ok (), take (length buf) (remaining_slice c), c\<lparr>pos := pos c + length buf\<rparr>)
      else (Err UnexpectedEof, buf, c\<lparr>pos := length (inner c)\<rparr>))"

definition read_array :: "nat \<Rightarrow> cursor \<Rightarrow> bytes \<times> cursor" where
  "read_array n cursor =
     (let buffer = replicate n 0;
          (_, buffer, cursor) = read_exact buffer cursor
      in (buffer, cursor))"

text \<open>The cursor after a read that found too few bytes.\<close>

definition seek_end :: "cursor \<Rightarrow> cursor" where
  "seek_end c = c\<lparr>pos := length (inner c)\<rparr>"

section \<open>Invariant\<close>

definition cursor_ok :: "cursor \<Rightarrow> bool" where
  "cursor_ok c \<longleftrightarrow> pos c \<le> length (inner c)"

definition at_eof :: "cursor \<Rightarrow> bool" where
  "at_eof c \<longleftrightarrow> remaining_slice c = []"

text \<open>The cursor after \<open>n\<close> more bytes were consumed, in which the lemmas state results.\<close>

definition advance :: "nat \<Rightarrow> cursor \<Rightarrow> cursor" where
  "advance n c = c\<lparr>pos := pos c + n\<rparr>"

lemma cursor_ok_new [simp, cursor_simps]: "cursor_ok (cursor_new data)"
  by (simp add: cursor_ok_def cursor_new_def)

lemma remaining_slice_new [simp, cursor_simps]: "remaining_slice (cursor_new data) = data"
  by (simp add: remaining_slice_def cursor_new_def)

lemma inner_new [simp, cursor_simps]: "inner (cursor_new data) = data"
  by (simp add: cursor_new_def)

lemma length_remaining_slice: "length (remaining_slice c) = length (inner c) - pos c"
  by (simp add: remaining_slice_def)

lemma at_eof_iff: "at_eof c \<longleftrightarrow> length (inner c) \<le> pos c"
  by (simp add: at_eof_def remaining_slice_def)

section \<open>The two outcomes of a read\<close>

lemma read_exact_enough:
  assumes "length buf \<le> length (remaining_slice c)"
  shows "read_exact buf c =
    (Ok (), take (length buf) (remaining_slice c), c\<lparr>pos := pos c + length buf\<rparr>)"
  using assms by (simp add: read_exact_def)

lemma read_exact_short:
  assumes "length (remaining_slice c) < length buf"
  shows "read_exact buf c = (Err UnexpectedEof, buf, c\<lparr>pos := length (inner c)\<rparr>)"
  using assms by (simp add: read_exact_def)

lemma read_exact_length [simp]: "length (fst (snd (read_exact buf c))) = length buf"
  by (simp add: read_exact_def)

lemma read_exact_inner [simp]: "inner (snd (snd (read_exact buf c))) = inner c"
  by (simp add: read_exact_def)

lemma read_exact_cursor_ok:
  "cursor_ok c \<Longrightarrow> cursor_ok (snd (snd (read_exact buf c)))"
  by (auto simp add: read_exact_def cursor_ok_def length_remaining_slice)

lemma read_exact_pos_mono:
  "cursor_ok c \<Longrightarrow> pos c \<le> pos (snd (snd (read_exact buf c)))"
  by (simp add: read_exact_def cursor_ok_def)

lemma read_exact_Ok_iff:
  "fst (read_exact buf c) = Ok () \<longleftrightarrow> length buf \<le> length (remaining_slice c)"
  by (simp add: read_exact_def)

section \<open>The source's read idiom\<close>

lemma read_array_eq: "read_array n c = snd (read_exact (replicate n 0) c)"
  by (simp add: read_array_def Let_def split: prod.splits)

lemmas read_array_unfold = read_array_eq read_exact_def

lemma read_array_enough:
  assumes "n \<le> length (remaining_slice c)"
  shows "read_array n c = (take n (remaining_slice c), c\<lparr>pos := pos c + n\<rparr>)"
  using assms by (simp add: read_array_unfold)

lemma read_array_short:
  assumes "length (remaining_slice c) < n"
  shows "read_array n c = (replicate n 0, c\<lparr>pos := length (inner c)\<rparr>)"
  using assms by (simp add: read_array_unfold)

lemma read_array_length [simp, cursor_simps]: "length (fst (read_array n c)) = n"
  by (simp add: read_array_unfold)

lemma read_array_inner [simp, cursor_simps]: "inner (snd (read_array n c)) = inner c"
  by (simp add: read_array_unfold)

lemma read_array_cursor_ok [cursor_simps]:
  "cursor_ok c \<Longrightarrow> cursor_ok (snd (read_array n c))"
  by (auto simp add: read_array_unfold cursor_ok_def length_remaining_slice)

lemma read_array_pos_mono:
  "cursor_ok c \<Longrightarrow> pos c \<le> pos (snd (read_array n c))"
  by (simp add: read_array_unfold cursor_ok_def)

lemma read_array_zero [simp]: "read_array 0 c = ([], c)"
  by (simp add: read_array_unfold)

section \<open>Reads as consumption of a prefix\<close>

text \<open>
  If the remaining bytes start with \<open>bs\<close>, reading \<open>length bs\<close> bytes returns \<open>bs\<close> and
  leaves the rest. At the end of the data every read of at least one byte returns zeros
  and stays at the end.
\<close>

lemma read_array_prefix:
  assumes "remaining_slice c = bs @ rest"
  shows "fst (read_array (length bs) c) = bs"
    and "remaining_slice (snd (read_array (length bs) c)) = rest"
proof -
  have le: "length bs \<le> length (remaining_slice c)"
    using assms by simp
  from read_array_enough [OF le] assms
  show "fst (read_array (length bs) c) = bs" by simp
  from assms have "drop (pos c + length bs) (inner c) = rest"
    unfolding remaining_slice_def by (rule drop_add_eq_append)
  with read_array_enough [OF le]
  show "remaining_slice (snd (read_array (length bs) c)) = rest"
    by (simp add: remaining_slice_def)
qed

lemma advance_simps [simp, cursor_simps]:
  "inner (advance n c) = inner c"
  "pos (advance n c) = pos c + n"
  "advance 0 c = c"
  "advance m (advance n c) = advance (n + m) c"
  by (simp_all add: advance_def add.assoc)

lemma cursor_ok_advance:
  "n \<le> length (remaining_slice c) \<Longrightarrow> cursor_ok c \<Longrightarrow> cursor_ok (advance n c)"
  by (simp add: cursor_ok_def length_remaining_slice)

lemma remaining_slice_advance [cursor_simps]:
  "remaining_slice (advance n c) = drop n (remaining_slice c)"
  by (simp add: remaining_slice_def add.commute)

lemma remaining_slice_advance_append [cursor_simps]:
  assumes "remaining_slice c = bs @ rest"
  shows "remaining_slice (advance (length bs) c) = rest"
  using assms by (simp add: remaining_slice_advance)

lemma read_array_append:
  assumes "remaining_slice c = bs @ rest"
  shows "read_array (length bs) c = (bs, advance (length bs) c)"
proof -
  have "length bs \<le> length (remaining_slice c)"
    using assms by simp
  then show ?thesis
    using assms by (simp add: read_array_enough advance_def)
qed

lemma read_array_append_n:
  assumes "remaining_slice c = bs @ rest" and "length bs = n"
  shows "read_array n c = (bs, advance n c)"
  using read_array_append [OF assms(1)] assms(2) by simp

lemma read_array_at_eof:
  assumes "at_eof c" and "0 < n"
  shows "fst (read_array n c) = replicate n 0" and "at_eof (snd (read_array n c))"
  using assms by (simp_all add: at_eof_def read_array_short remaining_slice_def)

lemma read_array_remaining:
  "remaining_slice (snd (read_array n c)) =
     (if n \<le> length (remaining_slice c) then drop n (remaining_slice c) else [])"
  by (simp add: read_array_unfold remaining_slice_def add.commute)

lemma read_array_bytes:
  "fst (read_array n c) =
     (if n \<le> length (remaining_slice c) then take n (remaining_slice c) else replicate n 0)"
  by (simp add: read_array_unfold)

section \<open>What a read leaves behind\<close>

lemma read_array_eqD:
  assumes "read_array n c = (bs, c')"
  shows "length bs = n" and "inner c' = inner c"
    and "cursor_ok c \<Longrightarrow> cursor_ok c'" and "cursor_ok c \<Longrightarrow> pos c \<le> pos c'"
  using assms read_array_length [of n c] read_array_inner [of n c]
    read_array_cursor_ok [of c n] read_array_pos_mono [of c n]
  by (simp_all del: read_array_length read_array_inner)

section \<open>Reads at and near the end of the data\<close>

lemma seek_end_simps [simp]:
  "cursor_ok (seek_end c)" "at_eof (seek_end c)" "inner (seek_end c) = inner c"
  "remaining_slice (seek_end c) = []"
  by (simp_all add: seek_end_def cursor_ok_def at_eof_def remaining_slice_def)

lemma seek_end_at_eof: "cursor_ok c \<Longrightarrow> at_eof c \<Longrightarrow> seek_end c = c"
  by (simp add: seek_end_def cursor_ok_def at_eof_iff)

lemma read_array_short_seek:
  "length (remaining_slice c) < n \<Longrightarrow> read_array n c = (replicate n 0, seek_end c)"
  by (simp add: read_array_short seek_end_def)

lemma read_array_eof:
  assumes "cursor_ok c" and "at_eof c"
  shows "read_array n c = (replicate n 0, c)"
proof (cases n)
  case 0
  then show ?thesis by simp
next
  case (Suc m)
  with assms(2) have "length (remaining_slice c) < n" by (simp add: at_eof_def)
  with assms show ?thesis by (simp add: read_array_short_seek seek_end_at_eof)
qed

end
