(* ===== verification/Tx_Model.thy ===== *)
theory Tx_Model
  imports Codec_Prelude
begin

text \<open>
  The data of \<open>src/src/lib.rs\<close>: the error enum \<open>BitcoinError\<close> with the messages its
  \<open>#[error(..)]\<close> attributes give it, the generic \<open>Point\<close>, and the transaction value
  (\<open>OutPoint\<close>, \<open>TxInput\<close>, \<open>TxOutput\<close>, \<open>LegacyTransaction\<close>). A struct is a record with
  the source's field names, except that \<open>Point\<close>'s \<open>x\<close> and \<open>y\<close> are \<open>point_x\<close> and
  \<open>point_y\<close> and \<open>TxOutput\<close>'s \<open>value\<close> is \<open>value_sats\<close> (the plain names are taken in
  Isabelle). The array type \<open>[u8; 32]\<close> of a transaction id is a byte list together with
  the well-formedness predicate \<open>wf_outpoint\<close>; \<open>wf_tx\<close> collects what Rust's types
  guarantee of a transaction value and HOL's lists do not.
\<close>

section \<open>Errors\<close>

datatype BitcoinError =
    InvalidTransaction
  | InvalidScript
  | InvalidAmount
  | ParseError string

fun error_message :: "BitcoinError \<Rightarrow> string" where
  "error_message InvalidTransaction = ''Invalid transaction format''"
| "error_message InvalidScript = ''Invalid script format''"
| "error_message InvalidAmount = ''Invalid amount''"
| "error_message (ParseError s) = ''Parse error: '' @ s"

section \<open>Points\<close>

record 'a Point =
  point_x :: 'a
  point_y :: 'a

definition Point_new :: "'a \<Rightarrow> 'a \<Rightarrow> 'a Point" where
  "Point_new x y = \<lparr>point_x = x, point_y = y\<rparr>"

section \<open>Transactions\<close>

record OutPoint =
  txid :: bytes
  vout :: u32

record TxInput =
  previous_output :: OutPoint
  script_sig :: bytes
  sequence :: u32

record TxOutput =
  value_sats :: u64
  script_pubkey :: bytes

record LegacyTransaction =
  version :: i32
  inputs :: "TxInput list"
  outputs :: "TxOutput list"
  lock_time :: u32

section \<open>Well-formedness\<close>

text \<open>
  A transaction id has exactly 32 bytes. A \<open>Vec\<close> never holds more than \<open>isize::MAX\<close>
  bytes, which bounds the length of a script and, through the size of its elements, the
  number of inputs and outputs.
\<close>

definition isize_MAX :: nat where
  "isize_MAX = 2 ^ 63 - 1"

text \<open>Sizes in bytes of the two element types on a 64-bit target.\<close>

definition size_of_TxInput :: nat where
  "size_of_TxInput = 64"

definition size_of_TxOutput :: nat where
  "size_of_TxOutput = 32"

definition wf_outpoint :: "OutPoint \<Rightarrow> bool" where
  "wf_outpoint op \<longleftrightarrow> length (txid op) = 32"

definition wf_input :: "TxInput \<Rightarrow> bool" where
  "wf_input i \<longleftrightarrow> wf_outpoint (previous_output i) \<and> length (script_sig i) \<le> isize_MAX"

definition wf_output :: "TxOutput \<Rightarrow> bool" where
  "wf_output out \<longleftrightarrow> length (script_pubkey out) \<le> isize_MAX"

definition wf_tx :: "LegacyTransaction \<Rightarrow> bool" where
  "wf_tx tx \<longleftrightarrow>
     list_all wf_input (inputs tx) \<and> list_all wf_output (outputs tx) \<and>
     length (inputs tx) * size_of_TxInput \<le> isize_MAX \<and>
     length (outputs tx) * size_of_TxOutput \<le> isize_MAX"

lemma isize_MAX_eq: "isize_MAX = 9223372036854775807"
  by (simp add: isize_MAX_def)

lemma wf_tx_empty [simp]:
  "wf_tx \<lparr>version = v, inputs = [], outputs = [], lock_time = l\<rparr>"
  by (simp add: wf_tx_def)

lemma wf_tx_counts:
  assumes "wf_tx tx"
  shows "length (inputs tx) < 2 ^ 64" and "length (outputs tx) < 2 ^ 64"
  using assms by (simp_all add: wf_tx_def isize_MAX_def size_of_TxInput_def size_of_TxOutput_def)

lemma isize_MAX_less: "n \<le> isize_MAX \<Longrightarrow> n < 2 ^ 64"
  by (simp add: isize_MAX_def)

lemma error_message_inject_kind:
  "error_message e = error_message e' \<Longrightarrow> e = e'"
  by (cases e; cases e') simp_all

end
