(* ===== verification/Compact_Size.thy ===== *)
theory Compact_Size
  imports Cursor Le_Bytes
begin

text \<open>
  Bitcoin's variable-length integer. \<open>read_compact_size\<close> is the function of that name
  in \<open>src/src/lib.rs\<close>: one marker byte, then 0, 2, 4 or 8 little-endian bytes, each read
  through \<open>read_array\<close> with its result dropped. \<open>compact_size\<close> is the encoder the
  specification asks for (the source has none): the shortest of the four forms.
  The lemmas give the decoder's value on each of the four forms with the bytes it
  consumes, the encoder's lengths, the round trip, acceptance of
  non-canonical forms, and what the decoder returns on truncated input.
\<close>

section \<open>Decoder\<close>

definition read_compact_size :: "cursor \<Rightarrow> u64 \<times> cursor" where
  "read_compact_size cursor =
     (let (buffer, cursor) = read_array 1 cursor;
          first_byte = buffer ! 0
      in if first_byte \<le> 252 then (ucast first_byte, cursor)
         else if first_byte = 253 then
           (let (buffer, cursor) = read_array 2 cursor
            in (ucast (from_le_bytes buffer :: u16), cursor))
         else if first_byte = 254 then
           (let (buffer, cursor) = read_array 4 cursor
            in (ucast (from_le_bytes buffer :: u32), cursor))
         else
           (let (buffer, cursor) = read_array 8 cursor
            in (from_le_bytes buffer :: u64, cursor)))"

section \<open>Encoder of the specification\<close>

definition compact_size :: "nat \<Rightarrow> bytes" where
  "compact_size n =
     (if n \<le> 252 then [of_nat n]
      else if n \<le> 65535 then 253 # to_le_bytes 2 (of_nat n :: u16)
      else if n \<le> 4294967295 then 254 # to_le_bytes 4 (of_nat n :: u32)
      else 255 # to_le_bytes 8 (of_nat n :: u64))"

text \<open>The four wire forms, canonical or not.\<close>

datatype cs_form = Form1 u8 | Form3 u16 | Form5 u32 | Form9 u64

fun form_bytes :: "cs_form \<Rightarrow> bytes" where
  "form_bytes (Form1 b) = [b]"
| "form_bytes (Form3 w) = 253 # to_le_bytes 2 w"
| "form_bytes (Form5 w) = 254 # to_le_bytes 4 w"
| "form_bytes (Form9 w) = 255 # to_le_bytes 8 w"

fun form_value :: "cs_form \<Rightarrow> u64" where
  "form_value (Form1 b) = ucast b"
| "form_value (Form3 w) = ucast w"
| "form_value (Form5 w) = ucast w"
| "form_value (Form9 w) = w"

fun form_ok :: "cs_form \<Rightarrow> bool" where
  "form_ok (Form1 b) = (b \<le> 252)"
| "form_ok _ = True"

definition canonical_form :: "nat \<Rightarrow> cs_form" where
  "canonical_form n =
     (if n \<le> 252 then Form1 (of_nat n)
      else if n \<le> 65535 then Form3 (of_nat n)
      else if n \<le> 4294967295 then Form5 (of_nat n)
      else Form9 (of_nat n))"

text \<open>The number of bytes a marker byte announces.\<close>

definition payload_len :: "u8 \<Rightarrow> nat" where
  "payload_len m = (if m \<le> 252 then 0 else if m = 253 then 2 else if m = 254 then 4 else 8)"

section \<open>The decoder, given its marker byte\<close>

lemma read_compact_size_marker:
  assumes "read_array 1 c = ([b], c1)"
  shows "read_compact_size c =
     (if b \<le> 252 then (ucast b, c1)
      else if b = 253 then
        (ucast (from_le_bytes (fst (read_array 2 c1)) :: u16), snd (read_array 2 c1))
      else if b = 254 then
        (ucast (from_le_bytes (fst (read_array 4 c1)) :: u32), snd (read_array 4 c1))
      else (from_le_bytes (fst (read_array 8 c1)), snd (read_array 8 c1)))"
  using assms by (simp add: read_compact_size_def split: prod.splits)

lemma read_array_1_cases:
  obtains b where "read_array 1 c = ([b], snd (read_array 1 c))"
proof -
  from read_array_length [of "Suc 0" c]
  obtain b where "fst (read_array (Suc 0) c) = [b]"
    by (auto simp only: length_Suc_conv length_0_conv)
  then have "read_array 1 c = ([b], snd (read_array 1 c))"
    by (simp add: prod_eq_iff)
  then show thesis by (rule that)
qed

lemma read_marker_payload:
  assumes "remaining_slice c = m # bs @ rest"
  shows "read_array 1 c = ([m], advance 1 c)"
    and "read_array (length bs) (advance 1 c) = (bs, advance (1 + length bs) c)"
proof -
  from assms have m: "remaining_slice c = [m] @ (bs @ rest)" by simp
  from read_array_append [OF m]
  show "read_array 1 c = ([m], advance 1 c)" by simp
  from remaining_slice_advance_append [OF m]
  have "remaining_slice (advance 1 c) = bs @ rest" by simp
  from read_array_append [OF this]
  show "read_array (length bs) (advance 1 c) = (bs, advance (1 + length bs) c)"
    by simp
qed

section \<open>Invariant of the cursor\<close>

lemma read_compact_size_inner [simp, cursor_simps]:
  "inner (snd (read_compact_size c)) = inner c"
proof -
  obtain b where b: "read_array 1 c = ([b], snd (read_array 1 c))"
    by (rule read_array_1_cases)
  show ?thesis by (simp add: read_compact_size_marker [OF b])
qed

lemma read_compact_size_cursor_ok [cursor_simps]:
  assumes "cursor_ok c"
  shows "cursor_ok (snd (read_compact_size c))"
proof -
  obtain b where b: "read_array 1 c = ([b], snd (read_array 1 c))"
    by (rule read_array_1_cases)
  from assms have "cursor_ok (snd (read_array 1 c))"
    by (rule read_array_cursor_ok)
  then show ?thesis
    by (simp add: read_compact_size_marker [OF b] read_array_cursor_ok)
qed

lemma read_compact_size_pos_mono:
  assumes "cursor_ok c"
  shows "pos c \<le> pos (snd (read_compact_size c))"
proof -
  obtain b where b: "read_array 1 c = ([b], snd (read_array 1 c))"
    by (rule read_array_1_cases)
  let ?c1 = "snd (read_array 1 c)"
  from assms have 1: "pos c \<le> pos ?c1" "cursor_ok ?c1"
    by (simp_all add: read_array_pos_mono read_array_cursor_ok)
  then have "pos c \<le> pos (snd (read_array n ?c1))" for n
    using read_array_pos_mono [of ?c1 n] by simp
  with 1 show ?thesis
    by (simp add: read_compact_size_marker [OF b])
qed

lemma read_compact_size_eqD:
  assumes "read_compact_size c = (n, c')"
  shows "inner c' = inner c"
    and "cursor_ok c \<Longrightarrow> cursor_ok c'" and "cursor_ok c \<Longrightarrow> pos c \<le> pos c'"
  using assms read_compact_size_inner [of c]
    read_compact_size_cursor_ok [of c] read_compact_size_pos_mono [of c]
  by (simp_all del: read_compact_size_inner)

section \<open>The four forms\<close>

lemma length_form_bytes:
  "length (form_bytes f) =
     (case f of Form1 _ \<Rightarrow> 1 | Form3 _ \<Rightarrow> 3 | Form5 _ \<Rightarrow> 5 | Form9 _ \<Rightarrow> 9)"
  by (cases f) simp_all

lemma compact_size_canonical: "compact_size n = form_bytes (canonical_form n)"
  by (simp add: compact_size_def canonical_form_def)

lemma form_value_canonical:
  assumes "n < 2 ^ 64"
  shows "form_value (canonical_form n) = of_nat n"
  using assms by (simp add: canonical_form_def ucast_of_nat_up)

lemma form_ok_canonical [simp]: "form_ok (canonical_form n)"
  by (simp add: canonical_form_def word_le_nat_alt unat_of_nat)

lemma length_compact_size [wire_length]:
  "length (compact_size n) =
     (if n \<le> 252 then 1 else if n \<le> 65535 then 3 else if n \<le> 4294967295 then 5 else 9)"
  by (simp add: compact_size_def)

lemma compact_size_nonempty [simp]: "compact_size n \<noteq> []"
  by (simp add: compact_size_def)

section \<open>At the end of the data\<close>

lemma read_compact_size_eof:
  assumes "cursor_ok c" and "at_eof c"
  shows "read_compact_size c = (0, c)"
  using read_array_eof [OF assms, of 1]
  by (simp add: read_compact_size_marker)

section \<open>Decoding the four forms\<close>

lemma read_form:
  assumes "remaining_slice c = form_bytes f @ rest" and "form_ok f"
  shows "read_compact_size c = (form_value f, advance (length (form_bytes f)) c)"
proof (cases f)
  case (Form1 b)
  with assms show ?thesis
    using read_marker_payload [of c b "[]" rest]
    by (simp add: read_compact_size_marker)
next
  case (Form3 w)
  with assms show ?thesis
    using read_marker_payload [of c 253 "to_le_bytes 2 w" rest]
    by (simp add: read_compact_size_marker from_le_bytes_to_le_bytes)
next
  case (Form5 w)
  with assms show ?thesis
    using read_marker_payload [of c 254 "to_le_bytes 4 w" rest]
    by (simp add: read_compact_size_marker from_le_bytes_to_le_bytes)
next
  case (Form9 w)
  with assms show ?thesis
    using read_marker_payload [of c 255 "to_le_bytes 8 w" rest]
    by (simp add: read_compact_size_marker from_le_bytes_to_le_bytes)
qed

text \<open>
  Claim C4. When the bytes that remain under the cursor start with any of the four
  CompactSize forms (one byte up to 252, or the marker 253, 254, 255 followed by a 2-,
  4- or 8-byte little-endian integer), \<open>read_compact_size\<close> returns the value of that
  form and leaves the cursor just behind it, with the bytes after the form still to
  read. The form need not be the shortest one for
  the value: non-canonical encodings are accepted.
\<close>

theorem read_compact_size_form:
  assumes "remaining_slice c = form_bytes f @ rest" and "form_ok f"
  shows "read_compact_size c = (form_value f, advance (length (form_bytes f)) c)
    \<and> remaining_slice (advance (length (form_bytes f)) c) = rest"
  using read_form [OF assms] remaining_slice_advance_append [OF assms(1)] by simp

theorem read_compact_size_form_witness:
  "remaining_slice (cursor_new [253, 10, 0, 7]) = form_bytes (Form3 10) @ [7]
   \<and> form_ok (Form3 10)
   \<and> read_compact_size (cursor_new [253, 10, 0, 7])
       = (10, advance 3 (cursor_new [253, 10, 0, 7]))
   \<and> remaining_slice (advance 3 (cursor_new [253, 10, 0, 7])) = [7]"
  using read_compact_size_form [of "cursor_new [253, 10, 0, 7]" "Form3 10" "[7]"]
  by (simp add: codec_eval remaining_slice_advance)

section \<open>Round trip\<close>

lemma unat_of_nat_u64: "n < 2 ^ 64 \<Longrightarrow> unat (of_nat n :: u64) = n"
  by (simp add: unat_of_nat)

lemma read_count:
  assumes "remaining_slice c = compact_size n @ rest" and "n < 2 ^ 64"
  shows "read_compact_size c = (of_nat n, advance (length (compact_size n)) c)"
    and "remaining_slice (advance (length (compact_size n)) c) = rest"
proof -
  from read_form [of c "canonical_form n" rest] assms
  show "read_compact_size c = (of_nat n, advance (length (compact_size n)) c)"
    by (simp add: compact_size_canonical form_value_canonical)
  from assms(1) show "remaining_slice (advance (length (compact_size n)) c) = rest"
    by (rule remaining_slice_advance_append)
qed

text \<open>
  Claim C14. Decoding inverts the canonical encoder: where the remaining bytes start
  with \<open>compact_size n\<close> for an \<open>n\<close> below \<open>2^64\<close>, \<open>read_compact_size\<close> returns \<open>n\<close> and
  consumes exactly the bytes of the encoding: what follows it is what remains.
\<close>

theorem read_compact_size_roundtrip:
  assumes "remaining_slice c = compact_size n @ rest" and "n < 2 ^ 64"
  shows "read_compact_size c = (of_nat n, advance (length (compact_size n)) c)
    \<and> remaining_slice (advance (length (compact_size n)) c) = rest"
  using read_count [OF assms] by simp

theorem read_compact_size_roundtrip_witness:
  "remaining_slice (cursor_new (compact_size 65536 @ [7])) = compact_size 65536 @ [7]
   \<and> (65536 :: nat) < 2 ^ 64
   \<and> read_compact_size (cursor_new (compact_size 65536 @ [7]))
       = (of_nat 65536, advance (length (compact_size 65536)) (cursor_new (compact_size 65536 @ [7])))
   \<and> remaining_slice (advance (length (compact_size 65536)) (cursor_new (compact_size 65536 @ [7]))) = [7]"
  using read_compact_size_roundtrip [of "cursor_new (compact_size 65536 @ [7])" 65536 "[7]"]
  by simp

text \<open>
  Claim C16. The canonical encoding is the shortest: whatever form
  \<open>read_compact_size\<close> reads a value from, the canonical encoding of the value it
  returns is not longer than the bytes of that form.
\<close>

theorem compact_size_shortest:
  assumes "remaining_slice c = form_bytes f @ rest" and "form_ok f"
  shows "length (compact_size (unat (fst (read_compact_size c)))) \<le> length (form_bytes f)"
proof -
  have v: "fst (read_compact_size c) = form_value f"
    using read_form [OF assms] by simp
  show ?thesis
  proof (cases f)
    case (Form1 b)
    with assms(2) have "unat b \<le> 252" by (simp add: word_le_nat_alt)
    with Form1 show ?thesis by (simp add: v length_compact_size)
  next
    case (Form3 w)
    with unat_u16_less [of w] show ?thesis by (simp add: v length_compact_size)
  next
    case (Form5 w)
    with unat_u32_less [of w] show ?thesis by (simp add: v length_compact_size)
  next
    case (Form9 w)
    then show ?thesis by (simp add: v length_compact_size)
  qed
qed

theorem compact_size_shortest_witness:
  "remaining_slice (cursor_new [253, 10, 0]) = form_bytes (Form3 10) @ [] \<and> form_ok (Form3 10)
   \<and> length (compact_size (unat (fst (read_compact_size (cursor_new [253, 10, 0])))))
       \<le> length (form_bytes (Form3 10))"
  using compact_size_shortest [of "cursor_new [253, 10, 0]" "Form3 10" "[]"]
  by (simp add: codec_eval)

section \<open>Truncated input\<close>

lemma read_payload_short:
  assumes "read_array 1 c = ([m], c1)" and "252 < m"
    and "length (remaining_slice c1) < payload_len m"
  shows "read_compact_size c = (0, seek_end c1)"
proof -
  from assms(2) have m: "\<not> m \<le> 252" by simp
  have short: "read_array k c1 = (replicate k 0, seek_end c1)"
    if "length (remaining_slice c1) < k" for k
    using that by (rule read_array_short_seek)
  from assms(3) m short [of 2] short [of 4] short [of 8] show ?thesis
    by (auto simp add: read_compact_size_marker [OF assms(1)] payload_len_def split: if_splits)
qed

text \<open>
  Claim C15. When the data ends inside a CompactSize value (the marker byte 253, 254
  or 255 is there, but fewer bytes follow than it announces), \<open>read_compact_size\<close>
  reports nothing: it returns 0 and leaves the cursor at the end of the data.
\<close>

theorem read_compact_size_truncated:
  assumes "remaining_slice c = m # bs" and "252 < m" and "length bs < payload_len m"
  shows "read_compact_size c = (0, seek_end (advance 1 c))"
proof -
  from assms(1) have r: "remaining_slice c = [m] @ bs" by simp
  from read_array_append [OF r] have 1: "read_array 1 c = ([m], advance 1 c)" by simp
  from remaining_slice_advance_append [OF r] assms(3)
  have "length (remaining_slice (advance 1 c)) < payload_len m" by simp
  with 1 assms(2) show ?thesis by (rule read_payload_short)
qed

theorem read_compact_size_truncated_witness:
  "remaining_slice (cursor_new [254, 1, 2, 3]) = 254 # [1, 2, 3] \<and> (252 :: u8) < 254
   \<and> length [1, 2, 3 :: u8] < payload_len 254
   \<and> read_compact_size (cursor_new [254, 1, 2, 3])
       = (0, seek_end (advance 1 (cursor_new [254, 1, 2, 3])))"
  using read_compact_size_truncated [of "cursor_new [254, 1, 2, 3]" 254 "[1, 2, 3]"]
  by (simp add: payload_len_def)

end
