(* ===== verification/Wire_Format.thy ===== *)
theory Wire_Format
  imports Tx_Model Compact_Size
begin

text \<open>
  The wire format of a legacy transaction, as the specification lays it out field by
  field: the complete encoder that \<open>src/src/lib.rs\<close> does not have (its \<open>serialize\<close>
  writes two fields only, see theory \<open>Serialize\<close>). It is the abstract specification
  the decoder is measured against: decoding the encoding of a transaction must give the
  transaction back. Multi-byte integers are little-endian, counts and lengths are
  CompactSize values, and a transaction id goes out in reversed byte order.
  The lemmas give the lengths of the encoded fields.
\<close>

section \<open>Encoder of the specification\<close>

definition encode_outpoint :: "OutPoint \<Rightarrow> bytes" where
  "encode_outpoint op = rev (txid op) @ to_le_bytes 4 (vout op)"

definition encode_script :: "bytes \<Rightarrow> bytes" where
  "encode_script s = compact_size (length s) @ s"

definition encode_input :: "TxInput \<Rightarrow> bytes" where
  "encode_input i =
     encode_outpoint (previous_output i) @ encode_script (script_sig i)
       @ to_le_bytes 4 (sequence i)"

definition encode_output :: "TxOutput \<Rightarrow> bytes" where
  "encode_output out = to_le_bytes 8 (value_sats out) @ encode_script (script_pubkey out)"

definition encode_tx :: "LegacyTransaction \<Rightarrow> bytes" where
  "encode_tx tx =
     to_le_bytes 4 (version tx)
       @ compact_size (length (inputs tx)) @ concat (map encode_input (inputs tx))
       @ compact_size (length (outputs tx)) @ concat (map encode_output (outputs tx))
       @ to_le_bytes 4 (lock_time tx)"

text \<open>Everything but the lock time: what remains when the last field is cut off.\<close>

definition encode_tx_body :: "LegacyTransaction \<Rightarrow> bytes" where
  "encode_tx_body tx =
     to_le_bytes 4 (version tx)
       @ compact_size (length (inputs tx)) @ concat (map encode_input (inputs tx))
       @ compact_size (length (outputs tx)) @ concat (map encode_output (outputs tx))"

section \<open>The end-to-end scenario of the specification\<close>

text \<open>
  Version 1; one input spending output \<open>0xFFFFFFFF\<close> of the all-zero transaction id
  with an empty script and sequence \<open>0xFFFFFFFF\<close>; one output of 5000000000 units with
  an empty script; lock time 0. On the wire these are 60 bytes.
\<close>

definition scenario_tx :: LegacyTransaction where
  "scenario_tx = \<lparr>version = 1,
     inputs = [\<lparr>previous_output = \<lparr>txid = replicate 32 0, vout = 0xFFFFFFFF\<rparr>,
                script_sig = [], sequence = 0xFFFFFFFF\<rparr>],
     outputs = [\<lparr>value_sats = 5000000000, script_pubkey = []\<rparr>],
     lock_time = 0\<rparr>"

definition scenario_bytes :: bytes where
  "scenario_bytes = [1, 0, 0, 0, 1] @ replicate 32 0 @ [0xFF, 0xFF, 0xFF, 0xFF, 0,
     0xFF, 0xFF, 0xFF, 0xFF, 1, 0x00, 0xF2, 0x05, 0x2A, 0x01, 0, 0, 0, 0, 0, 0, 0, 0]"

section \<open>Lengths\<close>

lemma length_encode_outpoint [wire_length]:
  "wf_outpoint op \<Longrightarrow> length (encode_outpoint op) = 36"
  by (simp add: encode_outpoint_def wf_outpoint_def)

lemma length_encode_script [wire_length]:
  "length (encode_script s) = length (compact_size (length s)) + length s"
  by (simp add: encode_script_def)

lemma encode_tx_split: "encode_tx tx = encode_tx_body tx @ to_le_bytes 4 (lock_time tx)"
  by (simp add: encode_tx_def encode_tx_body_def)

lemma length_encode_tx_ge: "10 \<le> length (encode_tx tx)"
proof -
  have "1 \<le> length (compact_size n)" for n
    by (simp add: length_compact_size)
  from this [of "length (inputs tx)"] this [of "length (outputs tx)"]
  show ?thesis by (simp add: encode_tx_def)
qed

section \<open>The scenario\<close>

lemma wf_scenario_tx: "wf_tx scenario_tx"
  by (simp add: scenario_tx_def wf_tx_def wf_input_def wf_output_def wf_outpoint_def
      isize_MAX_def size_of_TxInput_def size_of_TxOutput_def)

lemma encode_scenario_tx: "encode_tx scenario_tx = scenario_bytes"
  by (simp add: scenario_tx_def scenario_bytes_def encode_tx_def encode_input_def
      encode_output_def encode_outpoint_def encode_script_def compact_size_def codec_eval)

lemma length_scenario_bytes: "length scenario_bytes = 60"
  by (simp add: scenario_bytes_def)

lemma length_encode_tx_body_scenario: "length (encode_tx_body scenario_tx) = 56"
proof -
  have "length (encode_tx scenario_tx) = 60"
    by (simp only: encode_scenario_tx length_scenario_bytes)
  then show ?thesis by (simp add: encode_tx_split)
qed

end
