(* ===== verification/Decoder.thy ===== *)
theory Decoder
  imports Tx_Model Compact_Size
begin

text \<open>
  The transaction decoder of \<open>src/src/lib.rs\<close>: \<open>read_scriptsig\<close> and
  \<open>TryFrom<&[u8]> for LegacyTransaction\<close>. \<open>try_from\<close> is the whole function: the
  length check, the version, the input loop (\<open>read_inputs\<close>, whose body is
  \<open>read_input\<close>), the output loop (\<open>read_outputs\<close>, body \<open>read_output\<close>) and the lock
  time, every read through the cursor with its result dropped as in the source.
  The two allocations whose size comes from the input, \<open>Vec::with_capacity(n)\<close> and
  \<open>vec![0u8; n]\<close>, panic with a capacity overflow when they ask for more than
  \<open>isize::MAX\<close> bytes; that is the \<open>Panics\<close> outcome. Memory is otherwise not bounded
  in the model: where it returns a transaction the program needs the memory to hold it.
  The loops run \<open>unat n\<close> times for a count \<open>n\<close> read from the wire and are structural
  recursions on that number, so the decoder is total.
\<close>

section \<open>Allocation\<close>

definition vec_with_capacity :: "nat \<Rightarrow> nat \<Rightarrow> 'a list outcome" where
  "vec_with_capacity elem_size capacity =
     (if capacity * elem_size \<le> isize_MAX then Returns [] else Panics CapacityOverflow)"

definition vec_zeroed :: "nat \<Rightarrow> bytes outcome" where
  "vec_zeroed n = (if n \<le> isize_MAX then Returns (replicate n 0) else Panics CapacityOverflow)"

section \<open>Scripts\<close>

definition read_scriptsig :: "u64 \<Rightarrow> cursor \<Rightarrow> (bytes \<times> cursor) outcome" where
  "read_scriptsig len cursor =
     and_then (vec_zeroed (unat len)) (\<lambda>buffer.
       let (_, buffer, cursor) = read_exact buffer cursor
       in Returns (buffer, cursor))"

section \<open>Inputs\<close>

definition read_input :: "cursor \<Rightarrow> (TxInput \<times> cursor) outcome" where
  "read_input cursor =
     (let (txid_buffer, cursor) = read_array 32 cursor;
          txid_buffer = rev txid_buffer;
          (vout_buffer, cursor) = read_array 4 cursor;
          vout' = from_le_bytes vout_buffer;
          outpoint = \<lparr>txid = txid_buffer, vout = vout'\<rparr>;
          (scriptsig_size, cursor) = read_compact_size cursor
      in and_then (read_scriptsig scriptsig_size cursor) (\<lambda>(script_sig', cursor).
           let (sequence_buffer, cursor) = read_array 4 cursor;
               sequence' = from_le_bytes sequence_buffer
           in Returns (\<lparr>previous_output = outpoint, script_sig = script_sig',
                         sequence = sequence'\<rparr>, cursor)))"

fun read_inputs :: "nat \<Rightarrow> TxInput list \<Rightarrow> cursor \<Rightarrow> (TxInput list \<times> cursor) outcome" where
  "read_inputs 0 tx_inputs cursor = Returns (tx_inputs, cursor)"
| "read_inputs (Suc n) tx_inputs cursor =
     and_then (read_input cursor) (\<lambda>(tx_input, cursor).
       read_inputs n (tx_inputs @ [tx_input]) cursor)"

section \<open>Outputs\<close>

definition read_output :: "cursor \<Rightarrow> (TxOutput \<times> cursor) outcome" where
  "read_output cursor =
     (let (amount_buffer, cursor) = read_array 8 cursor;
          amount = from_le_bytes amount_buffer;
          (script_pubkey_size, cursor) = read_compact_size cursor
      in and_then (read_scriptsig script_pubkey_size cursor) (\<lambda>(script_pubkey', cursor).
           Returns (\<lparr>value_sats = amount, script_pubkey = script_pubkey'\<rparr>, cursor)))"

fun read_outputs :: "nat \<Rightarrow> TxOutput list \<Rightarrow> cursor \<Rightarrow> (TxOutput list \<times> cursor) outcome" where
  "read_outputs 0 tx_outputs cursor = Returns (tx_outputs, cursor)"
| "read_outputs (Suc n) tx_outputs cursor =
     and_then (read_output cursor) (\<lambda>(tx_output, cursor).
       read_outputs n (tx_outputs @ [tx_output]) cursor)"

section \<open>Transactions\<close>

definition try_from :: "bytes \<Rightarrow> (LegacyTransaction, BitcoinError) result outcome" where
  "try_from data =
     (if length data < 10 then Returns (Err InvalidTransaction)
      else
        let cursor = cursor_new data;
            (version_buffer, cursor) = read_array 4 cursor;
            version' = from_le_bytes version_buffer;
            (num_inputs, cursor) = read_compact_size cursor
        in and_then (vec_with_capacity size_of_TxInput (unat num_inputs)) (\<lambda>tx_inputs.
           and_then (read_inputs (unat num_inputs) tx_inputs cursor) (\<lambda>(tx_inputs, cursor).
             let (num_outputs, cursor) = read_compact_size cursor;
                 tx_outputs = []
             in and_then (read_outputs (unat num_outputs) tx_outputs cursor)
                  (\<lambda>(tx_outputs, cursor).
                    let (lock_time_buffer, cursor) = read_array 4 cursor;
                        lock_time' = from_le_bytes lock_time_buffer
                    in Returns (Ok \<lparr>version = version', inputs = tx_inputs,
                                      outputs = tx_outputs, lock_time = lock_time'\<rparr>)))))"

section \<open>Evaluation\<close>

lemma read_inputs_numeral [codec_eval]:
  "read_inputs (numeral k) acc c = read_inputs (Suc (pred_numeral k)) acc c"
  by (simp add: numeral_eq_Suc)

lemma read_outputs_numeral [codec_eval]:
  "read_outputs (numeral k) acc c = read_outputs (Suc (pred_numeral k)) acc c"
  by (simp add: numeral_eq_Suc)

lemmas decoder_defs = try_from_def read_input_def read_output_def read_scriptsig_def
  read_compact_size_def read_array_unfold remaining_slice_def cursor_new_def
  vec_with_capacity_def vec_zeroed_def size_of_TxInput_def isize_MAX_def

section \<open>The operations, step by step\<close>

text \<open>
  Each operation is a fixed sequence of reads. Given the result of every read, its
  result is the record built from them; these equations are what the later proofs
  apply, instead of unfolding the definitions.
\<close>

lemma read_scriptsig_eq:
  "read_scriptsig len c =
     (if unat len \<le> isize_MAX then Returns (read_array (unat len) c)
      else Panics CapacityOverflow)"
  by (simp add: read_scriptsig_def vec_zeroed_def read_array_eq split: prod.splits)

lemma read_input_steps:
  assumes "read_array 32 c = (t, c1)" and "read_array 4 c1 = (v, c2)"
    and "read_compact_size c2 = (n, c3)" and "read_scriptsig n c3 = Returns (s, c4)"
    and "read_array 4 c4 = (q, c5)"
  shows "read_input c = Returns (\<lparr>previous_output = \<lparr>txid = rev t, vout = from_le_bytes v\<rparr>,
            script_sig = s, sequence = from_le_bytes q\<rparr>, c5)"
  using assms by (simp add: read_input_def)

lemma read_output_steps:
  assumes "read_array 8 c = (a, c1)"
    and "read_compact_size c1 = (n, c2)" and "read_scriptsig n c2 = Returns (s, c3)"
  shows "read_output c = Returns (\<lparr>value_sats = from_le_bytes a, script_pubkey = s\<rparr>, c3)"
  using assms by (simp add: read_output_def)

lemma try_from_steps:
  assumes "10 \<le> length data"
    and "read_array 4 (cursor_new data) = (v, c1)" and "read_compact_size c1 = (n, c2)"
    and "unat n * size_of_TxInput \<le> isize_MAX"
    and "read_inputs (unat n) [] c2 = Returns (is, c3)"
    and "read_compact_size c3 = (m, c4)"
    and "read_outputs (unat m) [] c4 = Returns (os, c5)"
    and "read_array 4 c5 = (l, c6)"
  shows "try_from data = Returns (Ok \<lparr>version = from_le_bytes v, inputs = is,
            outputs = os, lock_time = from_le_bytes l\<rparr>)"
  using assms by (simp add: try_from_def vec_with_capacity_def)

section \<open>The steps behind a returned value\<close>

text \<open>
  The converse of the step equations: a value that was returned came from a run of
  every read, and the reads are named.
\<close>

lemma read_scriptsig_ReturnsD:
  assumes "read_scriptsig n c = Returns (s, c')"
  shows "length s = unat n" and "length s \<le> isize_MAX" and "inner c' = inner c"
    and "cursor_ok c \<Longrightarrow> cursor_ok c'" and "cursor_ok c \<Longrightarrow> pos c \<le> pos c'"
proof -
  from assms have n: "unat n \<le> isize_MAX" and r: "read_array (unat n) c = (s, c')"
    by (simp_all add: read_scriptsig_eq split: if_splits)
  from read_array_eqD [OF r] n
  show "length s = unat n" and "length s \<le> isize_MAX" and "inner c' = inner c"
    and "cursor_ok c \<Longrightarrow> cursor_ok c'" and "cursor_ok c \<Longrightarrow> pos c \<le> pos c'"
    by simp_all
qed

lemma read_input_ReturnsE:
  assumes "read_input c = Returns (i, c')"
  obtains t c1 v c2 n c3 s c4 q where
    "read_array 32 c = (t, c1)" and "read_array 4 c1 = (v, c2)"
    and "read_compact_size c2 = (n, c3)" and "read_scriptsig n c3 = Returns (s, c4)"
    and "read_array 4 c4 = (q, c')"
    and "i = \<lparr>previous_output = \<lparr>txid = rev t, vout = from_le_bytes v\<rparr>,
            script_sig = s, sequence = from_le_bytes q\<rparr>"
proof -
  let ?r1 = "read_array 32 c"
  let ?r2 = "read_array 4 (snd ?r1)"
  let ?r3 = "read_compact_size (snd ?r2)"
  from assms obtain s c4 where 4: "read_scriptsig (fst ?r3) (snd ?r3) = Returns (s, c4)"
    and 5: "snd (read_array 4 c4) = c'"
    and i: "i = \<lparr>previous_output = \<lparr>txid = rev (fst ?r1), vout = from_le_bytes (fst ?r2)\<rparr>,
            script_sig = s, sequence = from_le_bytes (fst (read_array 4 c4))\<rparr>"
    by (auto simp add: read_input_def Let_def case_prod_beta and_then_Returns_iff)
  show thesis
    by (rule that [of "fst ?r1" "snd ?r1" "fst ?r2" "snd ?r2" "fst ?r3" "snd ?r3" s c4
          "fst (read_array 4 c4)"]) (simp_all add: 4 5 [symmetric] i)
qed

lemma read_output_ReturnsE:
  assumes "read_output c = Returns (out, c')"
  obtains a c1 n c2 s where
    "read_array 8 c = (a, c1)" and "read_compact_size c1 = (n, c2)"
    and "read_scriptsig n c2 = Returns (s, c')"
    and "out = \<lparr>value_sats = from_le_bytes a, script_pubkey = s\<rparr>"
proof -
  let ?r1 = "read_array 8 c"
  let ?r2 = "read_compact_size (snd ?r1)"
  from assms obtain s where 3: "read_scriptsig (fst ?r2) (snd ?r2) = Returns (s, c')"
    and out: "out = \<lparr>value_sats = from_le_bytes (fst ?r1), script_pubkey = s\<rparr>"
    by (auto simp add: read_output_def Let_def case_prod_beta and_then_Returns_iff)
  show thesis
    by (rule that [of "fst ?r1" "snd ?r1" "fst ?r2" "snd ?r2" s]) (simp_all add: 3 out)
qed

lemma try_from_OkE:
  assumes "try_from data = Returns (Ok tx)"
  obtains v c1 n c2 c3 m c4 c5 l c6 where
    "10 \<le> length data"
    and "read_array 4 (cursor_new data) = (v, c1)" and "read_compact_size c1 = (n, c2)"
    and "unat n * size_of_TxInput \<le> isize_MAX"
    and "read_inputs (unat n) [] c2 = Returns (inputs tx, c3)"
    and "read_compact_size c3 = (m, c4)"
    and "read_outputs (unat m) [] c4 = Returns (outputs tx, c5)"
    and "read_array 4 c5 = (l, c6)"
    and "version tx = from_le_bytes v" and "lock_time tx = from_le_bytes l"
proof -
  let ?r1 = "read_array 4 (cursor_new data)"
  let ?r2 = "read_compact_size (snd ?r1)"
  from assms have len: "10 \<le> length data"
    by (auto simp add: try_from_def split: if_splits)
  with assms obtain "is" c3 os c5 where
    cap: "unat (fst ?r2) * size_of_TxInput \<le> isize_MAX"
    and 3: "read_inputs (unat (fst ?r2)) [] (snd ?r2) = Returns (is, c3)"
    and 5: "read_outputs (unat (fst (read_compact_size c3))) [] (snd (read_compact_size c3))
              = Returns (os, c5)"
    and tx: "tx = \<lparr>version = from_le_bytes (fst ?r1), inputs = is, outputs = os,
              lock_time = from_le_bytes (fst (read_array 4 c5))\<rparr>"
    by (auto simp add: try_from_def Let_def case_prod_beta and_then_Returns_iff
        vec_with_capacity_def split: if_splits)
  show thesis
    by (rule that [of "fst ?r1" "snd ?r1" "fst ?r2" "snd ?r2" c3 "fst (read_compact_size c3)"
          "snd (read_compact_size c3)" c5 "fst (read_array 4 c5)" "snd (read_array 4 c5)"])
      (simp_all add: len cap 3 5 tx)
qed

section \<open>Invariants of a returned value\<close>

lemma read_input_Returns:
  assumes "read_input c = Returns (i, c')"
  shows "wf_input i" and "inner c' = inner c"
    and "cursor_ok c \<Longrightarrow> cursor_ok c'" and "cursor_ok c \<Longrightarrow> pos c \<le> pos c'"
proof -
  from assms obtain t c1 v c2 n c3 s c4 q where
    1: "read_array 32 c = (t, c1)" and 2: "read_array 4 c1 = (v, c2)"
    and 3: "read_compact_size c2 = (n, c3)" and 4: "read_scriptsig n c3 = Returns (s, c4)"
    and 5: "read_array 4 c4 = (q, c')"
    and i: "i = \<lparr>previous_output = \<lparr>txid = rev t, vout = from_le_bytes v\<rparr>,
            script_sig = s, sequence = from_le_bytes q\<rparr>"
    by (rule read_input_ReturnsE)
  note D = read_array_eqD [OF 1] read_array_eqD [OF 2] read_compact_size_eqD [OF 3]
    read_scriptsig_ReturnsD [OF 4] read_array_eqD [OF 5]
  from D i show "wf_input i" by (simp add: wf_input_def wf_outpoint_def)
  from D show "inner c' = inner c" by simp
  from D show "cursor_ok c \<Longrightarrow> cursor_ok c'" by simp
  from D show "cursor_ok c \<Longrightarrow> pos c \<le> pos c'" by fastforce
qed

lemma read_output_Returns:
  assumes "read_output c = Returns (out, c')"
  shows "wf_output out" and "inner c' = inner c"
    and "cursor_ok c \<Longrightarrow> cursor_ok c'" and "cursor_ok c \<Longrightarrow> pos c \<le> pos c'"
proof -
  from assms obtain a c1 n c2 s where
    1: "read_array 8 c = (a, c1)" and 2: "read_compact_size c1 = (n, c2)"
    and 3: "read_scriptsig n c2 = Returns (s, c')"
    and out: "out = \<lparr>value_sats = from_le_bytes a, script_pubkey = s\<rparr>"
    by (rule read_output_ReturnsE)
  note D = read_array_eqD [OF 1] read_compact_size_eqD [OF 2] read_scriptsig_ReturnsD [OF 3]
  from D out show "wf_output out" by (simp add: wf_output_def)
  from D show "inner c' = inner c" by simp
  from D show "cursor_ok c \<Longrightarrow> cursor_ok c'" by simp
  from D show "cursor_ok c \<Longrightarrow> pos c \<le> pos c'" by fastforce
qed

lemma read_inputs_Returns_aux:
  "read_inputs n acc c = Returns (xs, c') \<Longrightarrow>
     (\<exists>ys. xs = acc @ ys \<and> length ys = n \<and> list_all wf_input ys) \<and> inner c' = inner c
       \<and> (cursor_ok c \<longrightarrow> cursor_ok c' \<and> pos c \<le> pos c')"
proof (induction n arbitrary: acc c)
  case 0
  then show ?case by simp
next
  case (Suc n)
  from Suc.prems obtain i c1 where i: "read_input c = Returns (i, c1)"
    and r: "read_inputs n (acc @ [i]) c1 = Returns (xs, c')"
    by (auto simp add: and_then_Returns_iff)
  from Suc.IH [OF r] read_input_Returns [OF i] show ?case
    by (auto simp add: length_Suc_conv)
qed

lemma read_inputs_Returns:
  assumes "read_inputs n acc c = Returns (xs, c')"
  shows "\<exists>ys. xs = acc @ ys \<and> length ys = n \<and> list_all wf_input ys"
    and "inner c' = inner c"
    and "cursor_ok c \<Longrightarrow> cursor_ok c'" and "cursor_ok c \<Longrightarrow> pos c \<le> pos c'"
  using read_inputs_Returns_aux [OF assms] by simp_all

lemma read_outputs_Returns_aux:
  "read_outputs n acc c = Returns (xs, c') \<Longrightarrow>
     (\<exists>ys. xs = acc @ ys \<and> length ys = n \<and> list_all wf_output ys) \<and> inner c' = inner c
       \<and> (cursor_ok c \<longrightarrow> cursor_ok c' \<and> pos c \<le> pos c')"
proof (induction n arbitrary: acc c)
  case 0
  then show ?case by simp
next
  case (Suc n)
  from Suc.prems obtain out c1 where out: "read_output c = Returns (out, c1)"
    and r: "read_outputs n (acc @ [out]) c1 = Returns (xs, c')"
    by (auto simp add: and_then_Returns_iff)
  from Suc.IH [OF r] read_output_Returns [OF out] show ?case
    by (auto simp add: length_Suc_conv)
qed

lemma read_outputs_Returns:
  assumes "read_outputs n acc c = Returns (xs, c')"
  shows "\<exists>ys. xs = acc @ ys \<and> length ys = n \<and> list_all wf_output ys"
    and "inner c' = inner c"
    and "cursor_ok c \<Longrightarrow> cursor_ok c'" and "cursor_ok c \<Longrightarrow> pos c \<le> pos c'"
  using read_outputs_Returns_aux [OF assms] by simp_all

section \<open>Panics\<close>

text \<open>The only panic of the decoder is the capacity overflow of an allocation.\<close>

lemma read_scriptsig_Panics: "read_scriptsig n c = Panics p \<Longrightarrow> p = CapacityOverflow \<and> isize_MAX < unat n"
  by (simp add: read_scriptsig_eq split: if_splits)

lemma read_input_Panics: "read_input c = Panics p \<Longrightarrow> p = CapacityOverflow"
  by (auto simp add: read_input_def Let_def case_prod_beta and_then_Panics_iff
      dest: read_scriptsig_Panics)

lemma read_output_Panics: "read_output c = Panics p \<Longrightarrow> p = CapacityOverflow"
  by (auto simp add: read_output_def Let_def case_prod_beta and_then_Panics_iff
      dest: read_scriptsig_Panics)

lemma read_inputs_Panics: "read_inputs n acc c = Panics p \<Longrightarrow> p = CapacityOverflow"
  by (induction n arbitrary: acc c)
    (auto simp add: and_then_Panics_iff dest: read_input_Panics)

lemma read_outputs_Panics: "read_outputs n acc c = Panics p \<Longrightarrow> p = CapacityOverflow"
  by (induction n arbitrary: acc c)
    (auto simp add: and_then_Panics_iff dest: read_output_Panics)

lemma try_from_Panics: "try_from data = Panics p \<Longrightarrow> p = CapacityOverflow"
  by (auto simp add: try_from_def Let_def case_prod_beta and_then_Panics_iff
      vec_with_capacity_def split: if_splits dest: read_inputs_Panics read_outputs_Panics)

section \<open>Results of the decoder\<close>

lemma try_from_one_zero_input:
  "try_from [1, 0, 0, 0, 1, 0, 0, 0, 0, 0]
     = Returns (Ok \<lparr>version = 1,
         inputs = [\<lparr>previous_output = \<lparr>txid = replicate 32 0, vout = 0\<rparr>,
                    script_sig = [], sequence = 0\<rparr>],
         outputs = [], lock_time = 0\<rparr>)"
  by (simp add: decoder_defs codec_eval)

text \<open>
  Claim C9. Whatever bytes it is given, a transaction that \<open>try_from\<close> returns is
  well formed: every transaction id has exactly 32 bytes (the type \<open>[u8; 32]\<close> of the
  source), every script is within the size a \<open>Vec\<close> can have, and the inputs fit the
  capacity that was allocated for them.
\<close>

theorem try_from_Ok_wf:
  assumes "try_from data = Returns (Ok tx)"
  shows "list_all wf_input (inputs tx) \<and> list_all wf_output (outputs tx)
    \<and> length (inputs tx) * size_of_TxInput \<le> isize_MAX"
  using assms
proof (rule try_from_OkE)
  fix n :: u64 and m :: u64 and c2 c3 c4 c5
  assume cap: "unat n * size_of_TxInput \<le> isize_MAX"
    and 3: "read_inputs (unat n) [] c2 = Returns (inputs tx, c3)"
    and 5: "read_outputs (unat m) [] c4 = Returns (outputs tx, c5)"
  from read_inputs_Returns(1) [OF 3] read_outputs_Returns(1) [OF 5] cap
  show ?thesis by auto
qed

theorem try_from_Ok_wf_witness:
  "try_from [1, 0, 0, 0, 1, 0, 0, 0, 0, 0]
     = Returns (Ok \<lparr>version = 1,
         inputs = [\<lparr>previous_output = \<lparr>txid = replicate 32 0, vout = 0\<rparr>,
                    script_sig = [], sequence = 0\<rparr>],
         outputs = [], lock_time = 0\<rparr>)
   \<and> list_all wf_input [\<lparr>previous_output = \<lparr>txid = replicate 32 0, vout = 0\<rparr>,
                    script_sig = [], sequence = 0\<rparr>]"
  using try_from_Ok_wf [OF try_from_one_zero_input] try_from_one_zero_input by simp

text \<open>
  Claim C5. A buffer of fewer than 10 bytes is rejected with \<open>InvalidTransaction\<close>
  before anything is read.
\<close>

theorem try_from_short:
  assumes "length data < 10"
  shows "try_from data = Returns (Err InvalidTransaction)"
  using assms by (simp add: try_from_def)

theorem try_from_short_witness:
  "length [1, 0, 0, 0, 0, 0, 0, 0, 0 :: u8] < 10
   \<and> try_from [1, 0, 0, 0, 0, 0, 0, 0, 0] = Returns (Err InvalidTransaction)"
  using try_from_short [of "[1, 0, 0, 0, 0, 0, 0, 0, 0]"] by simp

text \<open>
  Claim C8. The length check is the only error the decoder reports: on a buffer of 10
  bytes or more \<open>try_from\<close> either returns \<open>Ok\<close> or panics with a capacity overflow,
  whatever the buffer holds. Input that ends in the middle of a field is therefore never
  rejected.
\<close>

theorem try_from_long_Ok_or_panic:
  assumes "10 \<le> length data"
  shows "(\<exists>tx. try_from data = Returns (Ok tx)) \<or> try_from data = Panics CapacityOverflow"
proof (cases "try_from data")
  case (Returns r)
  with assms show ?thesis
    by (auto simp add: try_from_def Let_def case_prod_beta and_then_Returns_iff)
next
  case (Panics p)
  then show ?thesis by (simp add: try_from_Panics [OF Panics])
qed

theorem try_from_long_Ok_or_panic_witness:
  "10 \<le> length [1, 0, 0, 0, 0, 0, 0, 0, 0, 0 :: u8]
   \<and> ((\<exists>tx. try_from [1, 0, 0, 0, 0, 0, 0, 0, 0, 0] = Returns (Ok tx))
      \<or> try_from [1, 0, 0, 0, 0, 0, 0, 0, 0, 0] = Panics CapacityOverflow)"
  using try_from_long_Ok_or_panic [of "[1, 0, 0, 0, 0, 0, 0, 0, 0, 0]"] by simp

section \<open>The cursor across the input loop\<close>

lemma read_inputs_one_short:
  "read_inputs 1 [] (cursor_new [1, 2, 3])
     = Returns ([\<lparr>previous_output = \<lparr>txid = replicate 32 0, vout = 0\<rparr>,
          script_sig = [], sequence = 0\<rparr>], \<lparr>inner = [1, 2, 3], pos = 3\<rparr>)"
  by (simp add: decoder_defs codec_eval)

text \<open>
  Claim C10. The input loop moves one forward-only cursor over a buffer it never
  changes: when \<open>read_inputs\<close> returns, the cursor is still inside the buffer, not
  before where it started, over the same bytes, and exactly as many inputs were
  appended as the count asked for.
\<close>

theorem read_inputs_cursor:
  assumes "read_inputs n acc c = Returns (xs, c')" and "cursor_ok c"
  shows "cursor_ok c' \<and> pos c \<le> pos c' \<and> inner c' = inner c \<and> length xs = length acc + n"
  using read_inputs_Returns [OF assms(1)] assms(2) by auto

theorem read_inputs_cursor_witness:
  "read_inputs 1 [] (cursor_new [1, 2, 3])
     = Returns ([\<lparr>previous_output = \<lparr>txid = replicate 32 0, vout = 0\<rparr>,
          script_sig = [], sequence = 0\<rparr>], \<lparr>inner = [1, 2, 3], pos = 3\<rparr>)
   \<and> cursor_ok (cursor_new [1, 2, 3])
   \<and> cursor_ok \<lparr>inner = [1, 2, 3], pos = 3\<rparr>
   \<and> pos (cursor_new [1, 2, 3]) \<le> pos \<lparr>inner = [1, 2, 3 :: u8], pos = 3\<rparr>"
  using read_inputs_cursor [OF read_inputs_one_short] read_inputs_one_short by simp

end
