(* ===== verification/Roundtrip.thy ===== *)
theory Roundtrip
  imports Decoder Wire_Format
begin

text \<open>
  The decoder against the wire format: on the encoding of a well-formed transaction,
  followed by any bytes, every operation of theory \<open>Decoder\<close> returns the value that
  was encoded and leaves the cursor behind its encoding. The proofs follow the layout:
  a field is read where the remaining bytes start with it (\<open>read_field\<close>), a script
  after its length (\<open>read_script\<close>), an input and an output field by field, the two
  loops by induction on the encoded list, the transaction from its parts.
\<close>

section \<open>Fields and scripts\<close>

lemma read_field:
  assumes "remaining_slice c = bs @ rest" and "length bs = n"
  shows "read_array n c = (bs, advance n c)" and "remaining_slice (advance n c) = rest"
  using read_array_append [OF assms(1)] remaining_slice_advance_append [OF assms(1)] assms(2)
  by simp_all

lemma read_script:
  assumes "remaining_slice c = encode_script s @ rest" and "length s \<le> isize_MAX"
  shows "read_compact_size c = (of_nat (length s), advance (length (compact_size (length s))) c)"
    and "read_scriptsig (of_nat (length s)) (advance (length (compact_size (length s))) c)
           = Returns (s, advance (length (encode_script s)) c)"
proof -
  let ?k = "length (compact_size (length s))"
  from assms(2) have lt: "length s < 2 ^ 64" by (rule isize_MAX_less)
  from assms(1) have r: "remaining_slice c = compact_size (length s) @ (s @ rest)"
    by (simp add: encode_script_def)
  note 1 = read_count [OF r lt]
  show "read_compact_size c = (of_nat (length s), advance ?k c)" by (rule 1(1))
  from read_array_append [OF 1(2)] assms(2) lt
  show "read_scriptsig (of_nat (length s)) (advance ?k c)
      = Returns (s, advance (length (encode_script s)) c)"
    by (simp add: read_scriptsig_eq unat_of_nat_u64 length_encode_script)
qed

section \<open>Inputs and outputs\<close>

lemma read_input_encode:
  assumes "remaining_slice c = encode_input i @ rest" and "wf_input i"
  shows "read_input c = Returns (i, advance (length (encode_input i)) c)"
proof -
  let ?op = "previous_output i" and ?s = "script_sig i"
  let ?L = "length (encode_script ?s)"
  from assms(2) have len: "length (rev (txid ?op)) = 32" "length ?s \<le> isize_MAX"
    by (simp_all add: wf_input_def wf_outpoint_def)
  from assms(1) have r0: "remaining_slice c = rev (txid ?op)
      @ (to_le_bytes 4 (vout ?op) @ encode_script ?s @ to_le_bytes 4 (sequence i) @ rest)"
    by (simp add: encode_input_def encode_outpoint_def)
  note 1 = read_field [OF r0 len(1)]
  note 2 = read_field [OF 1(2) length_to_le_bytes]
  from 2(2) have r2: "remaining_slice (advance 4 (advance 32 c))
      = encode_script ?s @ (to_le_bytes 4 (sequence i) @ rest)" by simp
  note 3 = read_script [OF r2 len(2)]
  from remaining_slice_advance_append [OF r2]
  have r3: "remaining_slice (advance ?L (advance 4 (advance 32 c)))
      = to_le_bytes 4 (sequence i) @ rest" .
  note 4 = read_field [OF r3 length_to_le_bytes]
  have "read_input c = Returns (\<lparr>previous_output = \<lparr>txid = rev (rev (txid ?op)),
            vout = from_le_bytes (to_le_bytes 4 (vout ?op))\<rparr>,
          script_sig = ?s, sequence = from_le_bytes (to_le_bytes 4 (sequence i))\<rparr>,
        advance 4 (advance ?L (advance 4 (advance 32 c))))"
    by (rule read_input_steps [OF 1(1) 2(1) 3 4(1)])
  moreover have "length (encode_input i) = 32 + 4 + ?L + 4"
    using len(1) by (simp add: encode_input_def encode_outpoint_def)
  ultimately show ?thesis
    by (simp add: from_le_bytes_to_le_bytes)
qed

lemma read_output_encode:
  assumes "remaining_slice c = encode_output out @ rest" and "wf_output out"
  shows "read_output c = Returns (out, advance (length (encode_output out)) c)"
proof -
  let ?s = "script_pubkey out"
  from assms(2) have len: "length ?s \<le> isize_MAX"
    by (simp add: wf_output_def)
  from assms(1) have r0: "remaining_slice c
      = to_le_bytes 8 (value_sats out) @ (encode_script ?s @ rest)"
    by (simp add: encode_output_def)
  note 1 = read_field [OF r0 length_to_le_bytes]
  note 2 = read_script [OF 1(2) len]
  have "read_output c = Returns (\<lparr>value_sats = from_le_bytes (to_le_bytes 8 (value_sats out)),
          script_pubkey = ?s\<rparr>, advance (length (encode_script ?s)) (advance 8 c))"
    by (rule read_output_steps [OF 1(1) 2])
  then show ?thesis
    by (simp add: from_le_bytes_to_le_bytes encode_output_def)
qed

section \<open>The loops\<close>

lemma read_inputs_encode:
  assumes "remaining_slice c = concat (map encode_input is) @ rest"
    and "list_all wf_input is"
  shows "read_inputs (length is) acc c
    = Returns (acc @ is, advance (length (concat (map encode_input is))) c)"
  using assms
proof (induction "is" arbitrary: acc c)
  case Nil
  then show ?case by simp
next
  case (Cons i "is")
  from Cons.prems
  have r: "remaining_slice c = encode_input i @ (concat (map encode_input is) @ rest)"
    and wf: "wf_input i" "list_all wf_input is" by simp_all
  note 1 = read_input_encode [OF r wf(1)]
  note 2 = Cons.IH [OF remaining_slice_advance_append [OF r] wf(2)]
  show ?case by (simp add: 1 2 add.commute)
qed

lemma read_outputs_encode:
  assumes "remaining_slice c = concat (map encode_output os) @ rest"
    and "list_all wf_output os"
  shows "read_outputs (length os) acc c
    = Returns (acc @ os, advance (length (concat (map encode_output os))) c)"
  using assms
proof (induction os arbitrary: acc c)
  case Nil
  then show ?case by simp
next
  case (Cons out os)
  from Cons.prems
  have r: "remaining_slice c = encode_output out @ (concat (map encode_output os) @ rest)"
    and wf: "wf_output out" "list_all wf_output os" by simp_all
  note 1 = read_output_encode [OF r wf(1)]
  note 2 = Cons.IH [OF remaining_slice_advance_append [OF r] wf(2)]
  show ?case by (simp add: 1 2 add.commute)
qed

section \<open>Transactions\<close>

text \<open>
  The decoder on everything but the lock time, whatever follows: the transaction comes
  back with the lock time that the last read finds.
\<close>

lemma try_from_encode_body:
  assumes "wf_tx tx" and "10 \<le> length (encode_tx_body tx @ tail)"
  shows "try_from (encode_tx_body tx @ tail) = Returns (Ok (tx\<lparr>lock_time :=
    from_le_bytes (fst (read_array 4 (advance (length (encode_tx_body tx))
      (cursor_new (encode_tx_body tx @ tail)))))\<rparr>))"
proof -
  let ?is = "inputs tx" and ?os = "outputs tx"
  let ?I = "concat (map encode_input ?is)" and ?O = "concat (map encode_output ?os)"
  let ?c = "cursor_new (encode_tx_body tx @ tail)"
  let ?ki = "length (compact_size (length ?is))" and ?ko = "length (compact_size (length ?os))"
  let ?c5 = "advance (length ?O) (advance ?ko (advance (length ?I) (advance ?ki (advance 4 ?c))))"
  from assms have wf: "list_all wf_input ?is" "list_all wf_output ?os"
    "length ?is * size_of_TxInput \<le> isize_MAX"
    by (simp_all add: wf_tx_def)
  note lt = wf_tx_counts [OF assms(1)]
  have r0: "remaining_slice ?c = to_le_bytes 4 (version tx) @ (compact_size (length ?is)
      @ (?I @ (compact_size (length ?os) @ (?O @ tail))))"
    by (simp add: encode_tx_body_def)
  note 1 = read_field [OF r0 length_to_le_bytes]
  note 2 = read_count [OF 1(2) lt(1)]
  note 3 = read_inputs_encode [OF 2(2) wf(1), of "[]"]
  note 4 = read_count [OF remaining_slice_advance_append [OF 2(2)] lt(2)]
  note 5 = read_outputs_encode [OF 4(2) wf(2), of "[]"]
  have 6: "read_array 4 ?c5 = (fst (read_array 4 ?c5), snd (read_array 4 ?c5))"
    by simp
  have "try_from (encode_tx_body tx @ tail)
      = Returns (Ok \<lparr>version = from_le_bytes (to_le_bytes 4 (version tx)), inputs = ?is,
          outputs = ?os, lock_time = from_le_bytes (fst (read_array 4 ?c5))\<rparr>)"
    using assms(2) 1(1) 2(1) _ _ 4(1) _ 6
  proof (rule try_from_steps)
    show "unat (of_nat (length ?is) :: u64) * size_of_TxInput \<le> isize_MAX"
      using wf(3) lt(1) by (simp add: unat_of_nat_u64)
    show "read_inputs (unat (of_nat (length ?is) :: u64)) [] (advance ?ki (advance 4 ?c))
        = Returns (?is, advance (length ?I) (advance ?ki (advance 4 ?c)))"
      using 3 lt(1) by (simp add: unat_of_nat_u64)
    show "read_outputs (unat (of_nat (length ?os) :: u64)) []
          (advance ?ko (advance (length ?I) (advance ?ki (advance 4 ?c))))
        = Returns (?os, ?c5)"
      using 5 lt(2) by (simp add: unat_of_nat_u64)
  qed
  moreover have "length (encode_tx_body tx) = 4 + ?ki + length ?I + ?ko + length ?O"
    by (simp add: encode_tx_body_def)
  ultimately show ?thesis
    by (simp add: from_le_bytes_to_le_bytes add.assoc)
qed

lemma try_from_encode:
  assumes "wf_tx tx"
  shows "try_from (encode_tx_body tx @ to_le_bytes 4 (lock_time tx) @ rest) = Returns (Ok tx)"
proof -
  let ?tail = "to_le_bytes 4 (lock_time tx) @ rest"
  let ?c = "cursor_new (encode_tx_body tx @ ?tail)"
  have len: "10 \<le> length (encode_tx_body tx @ ?tail)"
    using length_encode_tx_ge [of tx] by (simp add: encode_tx_split)
  have "remaining_slice (advance (length (encode_tx_body tx)) ?c) = ?tail"
    by (simp add: remaining_slice_advance)
  from read_field(1) [OF this length_to_le_bytes] try_from_encode_body [OF assms len]
  show ?thesis by (simp add: from_le_bytes_to_le_bytes)
qed

text \<open>
  Claim C1. Decoding inverts the wire format: for every well-formed transaction
  (32-byte transaction ids, scripts and vectors within what a \<open>Vec\<close> can hold),
  \<open>try_from\<close> applied to its encoding returns that transaction, field for field and in
  order, and bytes that follow the encoding are ignored.
\<close>

theorem try_from_encode_tx:
  assumes "wf_tx tx"
  shows "try_from (encode_tx tx @ rest) = Returns (Ok tx)"
  using try_from_encode [OF assms, of rest] by (simp add: encode_tx_split)

theorem try_from_encode_tx_witness:
  "wf_tx scenario_tx \<and> try_from (encode_tx scenario_tx @ [0, 1, 2]) = Returns (Ok scenario_tx)"
  using try_from_encode_tx [of scenario_tx "[0, 1, 2]"] wf_scenario_tx by simp

section \<open>Byte order of transaction ids\<close>

lemma encode_input_spec:
  "encode_input \<lparr>previous_output = \<lparr>txid = replicate 31 0 @ [1], vout = 0\<rparr>,
       script_sig = [], sequence = 0\<rparr> = (1 # replicate 31 0) @ [0, 0, 0, 0, 0, 0, 0, 0, 0]"
  by (simp add: encode_input_def encode_outpoint_def encode_script_def compact_size_def
      codec_eval)

text \<open>
  Claim C17. A transaction id is stored in the reverse of its order on the wire: when
  the bytes under the cursor start with the 32 bytes of an id, the input that
  \<open>read_input\<close> returns refers to the reversed bytes. For the wire bytes 1 followed by
  31 zeros the id is 31 zeros followed by 1.
\<close>

theorem txid_byte_order:
  assumes "remaining_slice c = wire_txid @ rest" and "length wire_txid = 32"
    and "read_input c = Returns (i, c')"
  shows "txid (previous_output i) = rev wire_txid"
  using assms(3)
proof (rule read_input_ReturnsE)
  fix t c1 v q s
  assume "read_array 32 c = (t, c1)"
    and "i = \<lparr>previous_output = \<lparr>txid = rev t, vout = from_le_bytes v\<rparr>,
            script_sig = s, sequence = from_le_bytes q\<rparr>"
  with read_field(1) [OF assms(1,2)] show ?thesis by simp
qed

theorem txid_byte_order_witness:
  "remaining_slice (cursor_new ((1 # replicate 31 0) @ [0, 0, 0, 0, 0, 0, 0, 0, 0]))
     = (1 # replicate 31 0) @ [0, 0, 0, 0, 0, 0, 0, 0, 0]
   \<and> length (1 # replicate 31 (0 :: u8)) = 32
   \<and> read_input (cursor_new ((1 # replicate 31 0) @ [0, 0, 0, 0, 0, 0, 0, 0, 0]))
       = Returns (\<lparr>previous_output = \<lparr>txid = replicate 31 0 @ [1], vout = 0\<rparr>,
            script_sig = [], sequence = 0\<rparr>,
          advance 41 (cursor_new ((1 # replicate 31 0) @ [0, 0, 0, 0, 0, 0, 0, 0, 0])))
   \<and> txid (previous_output \<lparr>previous_output = \<lparr>txid = replicate 31 0 @ [1], vout = 0\<rparr>,
            script_sig = [], sequence = 0\<rparr>) = rev (1 # replicate 31 0)"
proof -
  let ?i = "\<lparr>previous_output = \<lparr>txid = replicate 31 0 @ [1], vout = 0\<rparr>,
            script_sig = [], sequence = 0\<rparr>"
  let ?c = "cursor_new ((1 # replicate 31 0) @ [0, 0, 0, 0, 0, 0, 0, 0, 0])"
  have "wf_input ?i"
    by (simp add: wf_input_def wf_outpoint_def)
  moreover have "remaining_slice ?c = encode_input ?i @ []"
    by (simp only: encode_input_spec remaining_slice_new append_Nil2)
  ultimately have r: "read_input ?c = Returns (?i, advance 41 ?c)"
    using read_input_encode [of ?c ?i "[]"] by (simp add: encode_input_spec)
  from txid_byte_order [of ?c "1 # replicate 31 0" "[0, 0, 0, 0, 0, 0, 0, 0, 0]" ?i "advance 41 ?c"] r
  show ?thesis by simp
qed

end
