(* ===== verification/Truncated_Input.thy ===== *)
theory Truncated_Input
  imports Roundtrip
begin

text \<open>
  What the decoder of \<open>src/src/lib.rs\<close> does with input that ends too early or that
  announces more than can be allocated. Because the result of every read is dropped, a
  read past the end leaves zeros in the buffer and the decoder goes on: the theorems
  here give the transaction it returns when the data ends inside the first input
  (as many all-zero inputs as the count announces) and when the lock time is cut off
  (lock time 0) or inside the first output (as many all-zero outputs as announced),
  and the panics when the announced input count or a script length overflows the
  capacity of a \<open>Vec\<close>. \<open>zero_input\<close> and \<open>zero_output\<close> are the values read from no data.
\<close>

section \<open>Definitions\<close>

definition zero_input :: TxInput where
  "zero_input = \<lparr>previous_output = \<lparr>txid = replicate 32 0, vout = 0\<rparr>,
     script_sig = [], sequence = 0\<rparr>"

definition zero_output :: TxOutput where
  "zero_output = \<lparr>value_sats = 0, script_pubkey = []\<rparr>"

section \<open>Reading at the end of the data\<close>

lemma read_scriptsig_zero: "read_scriptsig 0 c = Returns ([], c)"
  by (simp add: read_scriptsig_eq)

lemma read_input_eof:
  assumes "cursor_ok c" and "at_eof c"
  shows "read_input c = Returns (zero_input, c)"
  using read_input_steps [OF read_array_eof [OF assms] read_array_eof [OF assms]
      read_compact_size_eof [OF assms] read_scriptsig_zero read_array_eof [OF assms]]
  by (simp add: zero_input_def)

lemma read_output_eof:
  assumes "cursor_ok c" and "at_eof c"
  shows "read_output c = Returns (zero_output, c)"
  using read_output_steps [OF read_array_eof [OF assms]
      read_compact_size_eof [OF assms] read_scriptsig_zero]
  by (simp add: zero_output_def)

lemma read_inputs_eof:
  assumes "cursor_ok c" and "at_eof c"
  shows "read_inputs n acc c = Returns (acc @ replicate n zero_input, c)"
  by (induction n arbitrary: acc)
    (simp_all add: read_input_eof [OF assms] replicate_append_same)

lemma read_outputs_eof:
  assumes "cursor_ok c" and "at_eof c"
  shows "read_outputs n acc c = Returns (acc @ replicate n zero_output, c)"
  by (induction n arbitrary: acc)
    (simp_all add: read_output_eof [OF assms] replicate_append_same)

lemma read_input_short:
  assumes "length (remaining_slice c) < 32"
  shows "read_input c = Returns (zero_input, seek_end c)"
proof -
  note e = read_array_eof [of "seek_end c"] read_compact_size_eof [of "seek_end c"]
  from read_input_steps [OF read_array_short_seek [OF assms] e(1) e(2) read_scriptsig_zero e(1)]
  show ?thesis by (simp add: zero_input_def)
qed

lemma read_inputs_short:
  assumes "length (remaining_slice c) < 32" and "0 < n"
  shows "read_inputs n acc c = Returns (acc @ replicate n zero_input, seek_end c)"
proof -
  from assms(2) obtain m where n: "n = Suc m" by (cases n) auto
  show ?thesis
    by (simp add: n read_input_short [OF assms(1)] read_inputs_eof replicate_append_same)
qed

lemma read_output_short:
  assumes "length (remaining_slice c) < 8"
  shows "read_output c = Returns (zero_output, seek_end c)"
proof -
  note e = read_compact_size_eof [of "seek_end c"]
  from read_output_steps [OF read_array_short_seek [OF assms] e read_scriptsig_zero]
  show ?thesis by (simp add: zero_output_def)
qed

lemma read_outputs_short:
  assumes "length (remaining_slice c) < 8" and "0 < n"
  shows "read_outputs n acc c = Returns (acc @ replicate n zero_output, seek_end c)"
proof -
  from assms(2) obtain m where n: "n = Suc m" by (cases n) auto
  show ?thesis
    by (simp add: n read_output_short [OF assms(1)] read_outputs_eof replicate_append_same)
qed

section \<open>Truncated transactions\<close>

text \<open>
  Claim C6. A buffer of at least 10 bytes that ends inside its first input (fewer than
  32 bytes follow the input count) is not rejected: \<open>try_from\<close> returns \<open>Ok\<close> with as
  many inputs as the count announces, every one of them all zeros, no outputs and lock
  time 0.
\<close>

theorem try_from_truncated_inputs:
  assumes "data = to_le_bytes 4 v @ form_bytes f @ tail" and "form_ok f"
    and "10 \<le> length data" and "length tail < 32"
    and "0 < unat (form_value f)" and "unat (form_value f) * size_of_TxInput \<le> isize_MAX"
  shows "try_from data = Returns (Ok \<lparr>version = v,
    inputs = replicate (unat (form_value f)) zero_input, outputs = [], lock_time = 0\<rparr>)"
proof -
  let ?c = "cursor_new data"
  let ?c2 = "advance (length (form_bytes f)) (advance 4 ?c)"
  from assms(1) have r0: "remaining_slice ?c = to_le_bytes 4 v @ (form_bytes f @ tail)"
    by simp
  note 1 = read_field [OF r0 length_to_le_bytes]
  note 2 = read_form [OF 1(2) assms(2)]
  from remaining_slice_advance_append [OF 1(2)] assms(4)
  have "length (remaining_slice ?c2) < 32" by simp
  note 3 = read_inputs_short [OF this assms(5), of "[]"]
  note e = read_compact_size_eof [of "seek_end ?c2"] read_array_eof [of "seek_end ?c2" 4]
  have "try_from data = Returns (Ok \<lparr>version = from_le_bytes (to_le_bytes 4 v),
      inputs = [] @ replicate (unat (form_value f)) zero_input, outputs = [],
      lock_time = from_le_bytes (replicate 4 0)\<rparr>)"
    using assms(3) 1(1) 2 assms(6) 3 e(1) _ e(2)
    by (rule try_from_steps) simp_all
  then show ?thesis by (simp add: from_le_bytes_to_le_bytes)
qed

theorem try_from_truncated_inputs_witness:
  "[1, 0, 0, 0, 254, 255, 255, 255, 255, 0] = to_le_bytes 4 (1 :: i32) @ form_bytes (Form5 4294967295) @ [0]
   \<and> form_ok (Form5 4294967295) \<and> 10 \<le> length [1, 0, 0, 0, 254, 255, 255, 255, 255, 0 :: u8]
   \<and> length [0 :: u8] < 32 \<and> 0 < unat (form_value (Form5 4294967295))
   \<and> unat (form_value (Form5 4294967295)) * size_of_TxInput \<le> isize_MAX
   \<and> try_from [1, 0, 0, 0, 254, 255, 255, 255, 255, 0] = Returns (Ok \<lparr>version = 1,
        inputs = replicate 4294967295 zero_input, outputs = [], lock_time = 0\<rparr>)"
  using try_from_truncated_inputs [of "[1, 0, 0, 0, 254, 255, 255, 255, 255, 0]" 1
      "Form5 4294967295" "[0]"]
  by (simp add: codec_eval size_of_TxInput_def isize_MAX_def)

text \<open>
  Claim C12. A buffer whose inputs are complete and that ends inside its first output
  (fewer than 8 bytes follow the output count) is not rejected: \<open>try_from\<close> returns \<open>Ok\<close>
  with the inputs that were encoded, as many outputs as the count announces, every one
  of them all zeros, and lock time 0. Nothing bounds that count: the output vector
  grows by \<open>push\<close>.
\<close>

theorem try_from_truncated_outputs:
  assumes "data = to_le_bytes 4 v @ compact_size (length is) @ concat (map encode_input is)
      @ form_bytes g @ tail"
    and "list_all wf_input is" and "length is * size_of_TxInput \<le> isize_MAX"
    and "form_ok g" and "0 < unat (form_value g)" and "length tail < 8"
    and "10 \<le> length data"
  shows "try_from data = Returns (Ok \<lparr>version = v, inputs = is,
    outputs = replicate (unat (form_value g)) zero_output, lock_time = 0\<rparr>)"
proof -
  let ?c = "cursor_new data"
  let ?c2 = "advance (length (compact_size (length is))) (advance 4 ?c)"
  let ?c3 = "advance (length (concat (map encode_input is))) ?c2"
  let ?c4 = "advance (length (form_bytes g)) ?c3"
  from assms(3) have k: "length is < 2 ^ 64"
    by (simp add: size_of_TxInput_def isize_MAX_def)
  from assms(1) have r0: "remaining_slice ?c = to_le_bytes 4 v
      @ (compact_size (length is) @ (concat (map encode_input is) @ (form_bytes g @ tail)))"
    by simp
  note 1 = read_field [OF r0 length_to_le_bytes]
  note 2 = read_count [OF 1(2) k]
  note 3 = read_inputs_encode [OF 2(2) assms(2), of "[]"]
  note 4 = read_form [OF remaining_slice_advance_append [OF 2(2)] assms(4)]
  from remaining_slice_advance_append [OF remaining_slice_advance_append [OF 2(2)]] assms(6)
  have "length (remaining_slice ?c4) < 8" by simp
  note 5 = read_outputs_short [OF this assms(5), of "[]"]
  note 6 = read_array_eof [of "seek_end ?c4" 4]
  have "try_from data = Returns (Ok \<lparr>version = from_le_bytes (to_le_bytes 4 v),
      inputs = [] @ is, outputs = [] @ replicate (unat (form_value g)) zero_output,
      lock_time = from_le_bytes (replicate 4 0)\<rparr>)"
    using assms(7) 1(1) 2(1) _ _ 4 5 6
  proof (rule try_from_steps)
    from k assms(3) show "unat (of_nat (length is) :: u64) * size_of_TxInput \<le> isize_MAX"
      by (simp add: unat_of_nat_u64)
    from k 3 show "read_inputs (unat (of_nat (length is) :: u64)) [] ?c2
        = Returns ([] @ is, ?c3)"
      by (simp add: unat_of_nat_u64)
  qed simp_all
  then show ?thesis by (simp add: from_le_bytes_to_le_bytes)
qed

theorem try_from_truncated_outputs_witness:
  "list_all wf_input (inputs scenario_tx)
   \<and> length (inputs scenario_tx) * size_of_TxInput \<le> isize_MAX
   \<and> form_ok (Form3 3) \<and> 0 < unat (form_value (Form3 3)) \<and> length [7, 7 :: u8] < 8
   \<and> 10 \<le> length (to_le_bytes 4 (2 :: i32) @ compact_size (length (inputs scenario_tx))
      @ concat (map encode_input (inputs scenario_tx)) @ form_bytes (Form3 3) @ [7, 7])
   \<and> try_from (to_le_bytes 4 (2 :: i32) @ compact_size (length (inputs scenario_tx))
      @ concat (map encode_input (inputs scenario_tx)) @ form_bytes (Form3 3) @ [7, 7])
     = Returns (Ok \<lparr>version = 2, inputs = inputs scenario_tx,
        outputs = replicate 3 zero_output, lock_time = 0\<rparr>)"
  using try_from_truncated_outputs [of "to_le_bytes 4 (2 :: i32)
      @ compact_size (length (inputs scenario_tx))
      @ concat (map encode_input (inputs scenario_tx)) @ form_bytes (Form3 3) @ [7, 7]"
      2 "inputs scenario_tx" "Form3 3" "[7, 7]"]
  by (simp add: scenario_tx_def wf_input_def wf_outpoint_def isize_MAX_def
      size_of_TxInput_def length_compact_size)

text \<open>
  Claim C11. A transaction whose lock time is cut off (fewer than 4 bytes follow the
  outputs, the buffer still being 10 bytes or more) is not rejected either: it decodes
  to the encoded transaction with lock time 0.
\<close>

theorem try_from_truncated_lock_time:
  assumes "wf_tx tx" and "length bs < 4" and "10 \<le> length (encode_tx_body tx @ bs)"
  shows "try_from (encode_tx_body tx @ bs) = Returns (Ok (tx\<lparr>lock_time := 0\<rparr>))"
proof -
  let ?c = "cursor_new (encode_tx_body tx @ bs)"
  have "remaining_slice (advance (length (encode_tx_body tx)) ?c) = bs"
    by (simp add: remaining_slice_advance)
  with assms(2) have "length (remaining_slice (advance (length (encode_tx_body tx)) ?c)) < 4"
    by simp
  from read_array_short_seek [OF this] try_from_encode_body [OF assms(1,3)]
  show ?thesis by simp
qed

theorem try_from_truncated_lock_time_witness:
  "wf_tx scenario_tx \<and> length [0, 0, 0 :: u8] < 4
   \<and> 10 \<le> length (encode_tx_body scenario_tx @ [0, 0, 0])
   \<and> try_from (encode_tx_body scenario_tx @ [0, 0, 0])
       = Returns (Ok (scenario_tx\<lparr>lock_time := 0\<rparr>))"
  using try_from_truncated_lock_time [of scenario_tx "[0, 0, 0]"] wf_scenario_tx
  by (simp add: length_encode_tx_body_scenario)

section \<open>Capacity overflow\<close>

text \<open>
  Claim C7. A buffer of at least 10 bytes whose input count, times the size of a
  \<open>TxInput\<close>, exceeds \<open>isize::MAX\<close> makes \<open>try_from\<close> panic in \<open>Vec::with_capacity\<close>
  instead of returning an error.
\<close>

theorem try_from_capacity_overflow:
  assumes "data = to_le_bytes 4 v @ form_bytes f @ tail" and "form_ok f"
    and "10 \<le> length data" and "isize_MAX < unat (form_value f) * size_of_TxInput"
  shows "try_from data = Panics CapacityOverflow"
proof -
  from assms(1) have r0: "remaining_slice (cursor_new data) = to_le_bytes 4 v @ (form_bytes f @ tail)"
    by simp
  note 1 = read_field [OF r0 length_to_le_bytes]
  note 2 = read_form [OF 1(2) assms(2)]
  from assms(3,4) 1(1) 2 show ?thesis
    by (simp add: try_from_def vec_with_capacity_def)
qed

theorem try_from_capacity_overflow_witness:
  "[1, 0, 0, 0, 255, 255, 255, 255, 255, 255, 255, 255, 255, 0]
     = to_le_bytes 4 (1 :: i32) @ form_bytes (Form9 18446744073709551615) @ [0]
   \<and> form_ok (Form9 18446744073709551615)
   \<and> 10 \<le> length [1, 0, 0, 0, 255, 255, 255, 255, 255, 255, 255, 255, 255, 0 :: u8]
   \<and> isize_MAX < unat (form_value (Form9 18446744073709551615)) * size_of_TxInput
   \<and> try_from [1, 0, 0, 0, 255, 255, 255, 255, 255, 255, 255, 255, 255, 0]
       = Panics CapacityOverflow"
  using try_from_capacity_overflow [of "[1, 0, 0, 0, 255, 255, 255, 255, 255, 255, 255, 255, 255, 0]" 1
      "Form9 18446744073709551615" "[0]"]
  by (simp add: codec_eval size_of_TxInput_def isize_MAX_def)

lemma read_input_script_overflow:
  assumes "remaining_slice c = outpoint @ form_bytes g @ tail" and "length outpoint = 36"
    and "form_ok g" and "isize_MAX < unat (form_value g)"
  shows "read_input c = Panics CapacityOverflow"
proof -
  from assms(2) have "outpoint = take 32 outpoint @ drop 32 outpoint"
    and l: "length (take 32 outpoint) = 32" "length (drop 32 outpoint) = 4"
    by simp_all
  with assms(1) have r: "remaining_slice c
      = take 32 outpoint @ (drop 32 outpoint @ (form_bytes g @ tail))"
    by (metis append.assoc)
  note 1 = read_field [OF r l(1)]
  note 2 = read_field [OF 1(2) l(2)]
  note 3 = read_form [OF 2(2) assms(3)]
  from assms(4) 1(1) 2(1) 3 show ?thesis
    by (simp add: read_input_def read_scriptsig_eq)
qed

text \<open>
  Claim C13. A script length above \<open>isize::MAX\<close> makes \<open>try_from\<close> panic as well: when
  the first input announces such a length after its 36 bytes of outpoint, the
  allocation \<open>vec![0u8; length]\<close> in \<open>read_scriptsig\<close> overflows, whatever follows.
\<close>

theorem try_from_script_overflow:
  assumes "data = to_le_bytes 4 v @ form_bytes f @ outpoint @ form_bytes g @ tail"
    and "form_ok f" and "0 < unat (form_value f)"
    and "unat (form_value f) * size_of_TxInput \<le> isize_MAX"
    and "length outpoint = 36" and "form_ok g" and "isize_MAX < unat (form_value g)"
  shows "try_from data = Panics CapacityOverflow"
proof -
  let ?c = "cursor_new data"
  from assms(1) have r0: "remaining_slice ?c
      = to_le_bytes 4 v @ (form_bytes f @ (outpoint @ form_bytes g @ tail))"
    by simp
  note 1 = read_field [OF r0 length_to_le_bytes]
  note 2 = read_form [OF 1(2) assms(2)]
  note 3 = read_input_script_overflow
    [OF remaining_slice_advance_append [OF 1(2)] assms(5,6,7)]
  from assms(3) obtain m where m: "unat (form_value f) = Suc m"
    by (cases "unat (form_value f)") auto
  from assms(1,5) have "10 \<le> length data" by simp
  with 1(1) 2 3 assms(4) m show ?thesis
    by (simp add: try_from_def vec_with_capacity_def)
qed

theorem try_from_script_overflow_witness:
  "[1, 0, 0, 0, 1] @ replicate 36 0 @ [255, 255, 255, 255, 255, 255, 255, 255, 255]
     = to_le_bytes 4 (1 :: i32) @ form_bytes (Form1 1) @ replicate 36 0
       @ form_bytes (Form9 18446744073709551615) @ []
   \<and> form_ok (Form1 1) \<and> 0 < unat (form_value (Form1 1))
   \<and> unat (form_value (Form1 1)) * size_of_TxInput \<le> isize_MAX
   \<and> length (replicate 36 (0 :: u8)) = 36 \<and> form_ok (Form9 18446744073709551615)
   \<and> isize_MAX < unat (form_value (Form9 18446744073709551615))
   \<and> try_from ([1, 0, 0, 0, 1] @ replicate 36 0
         @ [255, 255, 255, 255, 255, 255, 255, 255, 255]) = Panics CapacityOverflow"
  using try_from_script_overflow [of "[1, 0, 0, 0, 1] @ replicate 36 0
         @ [255, 255, 255, 255, 255, 255, 255, 255, 255]" 1 "Form1 1" "replicate 36 0"
      "Form9 18446744073709551615" "[]"]
  by (simp add: codec_eval size_of_TxInput_def isize_MAX_def)

end
