(* ===== verification/Strict_Decoder.thy ===== *)
theory Strict_Decoder
  imports Roundtrip "HOL-Library.Monad_Syntax"
begin

text \<open>
  The decoder the specification describes, as an abstract specification of the source's
  \<open>try_from\<close>: a function on the list of bytes that remain, in the option monad, in
  which every read that needs more bytes than there are fails (\<open>take_exact\<close>) and the
  failure ends the decoding. It returns the transaction and the bytes behind it.
  The lemmas show that it accepts the wire format of every well-formed transaction, and
  relate it to the source read by read (\<open>sim_take\<close>, \<open>sim_compact_size\<close>, \<open>sim_script\<close>,
  \<open>sim_input\<close>, \<open>sim_inputs_aux\<close> and the same for outputs): a successful exact read of
  the remaining bytes is what the cursor reads, and leaves the cursor over what the
  exact read left. The theorems are the refinement (what the strict decoder accepts, the
  source decodes to the same transaction) and its converse (what the source returns is
  the strict decoder's transaction, or the strict decoder rejects and the lock time
  is 0).
\<close>

section \<open>The strict decoder\<close>

definition take_exact :: "nat \<Rightarrow> bytes \<Rightarrow> (bytes \<times> bytes) option" where
  "take_exact n bs = (if n \<le> length bs then Some (take n bs, drop n bs) else None)"

definition strict_compact_size :: "bytes \<Rightarrow> (u64 \<times> bytes) option" where
  "strict_compact_size bs = do {
     (marker, bs) \<leftarrow> take_exact 1 bs;
     let first_byte = marker ! 0;
     if first_byte \<le> 252 then Some (ucast first_byte, bs)
     else if first_byte = 253 then do {
       (buffer, bs) \<leftarrow> take_exact 2 bs;
       Some (ucast (from_le_bytes buffer :: u16), bs) }
     else if first_byte = 254 then do {
       (buffer, bs) \<leftarrow> take_exact 4 bs;
       Some (ucast (from_le_bytes buffer :: u32), bs) }
     else do {
       (buffer, bs) \<leftarrow> take_exact 8 bs;
       Some (from_le_bytes buffer, bs) } }"

definition strict_script :: "bytes \<Rightarrow> (bytes \<times> bytes) option" where
  "strict_script bs = do {
     (len, bs) \<leftarrow> strict_compact_size bs;
     take_exact (unat len) bs }"

definition strict_input :: "bytes \<Rightarrow> (TxInput \<times> bytes) option" where
  "strict_input bs = do {
     (txid_bytes, bs) \<leftarrow> take_exact 32 bs;
     (vout_bytes, bs) \<leftarrow> take_exact 4 bs;
     (script, bs) \<leftarrow> strict_script bs;
     (sequence_bytes, bs) \<leftarrow> take_exact 4 bs;
     Some (\<lparr>previous_output = \<lparr>txid = rev txid_bytes, vout = from_le_bytes vout_bytes\<rparr>,
            script_sig = script, sequence = from_le_bytes sequence_bytes\<rparr>, bs) }"

fun strict_inputs :: "nat \<Rightarrow> bytes \<Rightarrow> (TxInput list \<times> bytes) option" where
  "strict_inputs 0 bs = Some ([], bs)"
| "strict_inputs (Suc n) bs = do {
     (i, bs) \<leftarrow> strict_input bs;
     (is, bs) \<leftarrow> strict_inputs n bs;
     Some (i # is, bs) }"

definition strict_output :: "bytes \<Rightarrow> (TxOutput \<times> bytes) option" where
  "strict_output bs = do {
     (value_bytes, bs) \<leftarrow> take_exact 8 bs;
     (script, bs) \<leftarrow> strict_script bs;
     Some (\<lparr>value_sats = from_le_bytes value_bytes, script_pubkey = script\<rparr>, bs) }"

fun strict_outputs :: "nat \<Rightarrow> bytes \<Rightarrow> (TxOutput list \<times> bytes) option" where
  "strict_outputs 0 bs = Some ([], bs)"
| "strict_outputs (Suc n) bs = do {
     (out, bs) \<leftarrow> strict_output bs;
     (outs, bs) \<leftarrow> strict_outputs n bs;
     Some (out # outs, bs) }"

definition decode_strict :: "bytes \<Rightarrow> (LegacyTransaction \<times> bytes) option" where
  "decode_strict data =
     (if length data < 10 then None
      else do {
        (version_bytes, bs) \<leftarrow> take_exact 4 data;
        (num_inputs, bs) \<leftarrow> strict_compact_size bs;
        (tx_inputs, bs) \<leftarrow> strict_inputs (unat num_inputs) bs;
        (num_outputs, bs) \<leftarrow> strict_compact_size bs;
        (tx_outputs, bs) \<leftarrow> strict_outputs (unat num_outputs) bs;
        (lock_time_bytes, bs) \<leftarrow> take_exact 4 bs;
        Some (\<lparr>version = from_le_bytes version_bytes, inputs = tx_inputs,
               outputs = tx_outputs, lock_time = from_le_bytes lock_time_bytes\<rparr>, bs) })"

section \<open>Exact reads\<close>

lemma take_exact_Some_iff:
  "take_exact n bs = Some (x, r) \<longleftrightarrow> bs = x @ r \<and> length x = n"
  by (auto simp add: take_exact_def)

lemma take_exact_append [simp]: "take_exact (length x) (x @ r) = Some (x, r)"
  by (simp add: take_exact_Some_iff)

lemma take_exact_append_n: "length x = n \<Longrightarrow> take_exact n (x @ r) = Some (x, r)"
  by (simp add: take_exact_Some_iff)

lemmas bind_splits = bind_eq_Some_conv take_exact_Some_iff

section \<open>CompactSize values\<close>

lemma strict_compact_size_form:
  assumes "form_ok f"
  shows "strict_compact_size (form_bytes f @ r) = Some (form_value f, r)"
  using assms
  by (cases f) (simp_all add: strict_compact_size_def take_exact_def from_le_bytes_to_le_bytes)

lemma strict_compact_size_SomeE:
  assumes "strict_compact_size bs = Some (v, r)"
  obtains f where "form_ok f" and "bs = form_bytes f @ r" and "v = form_value f"
proof -
  from assms obtain m bs1 where m: "bs = [m] @ bs1"
    and rest: "(if m \<le> 252 then Some (ucast m, bs1)
      else if m = 253 then do {
        (buffer, bs) \<leftarrow> take_exact 2 bs1; Some (ucast (from_le_bytes buffer :: u16), bs) }
      else if m = 254 then do {
        (buffer, bs) \<leftarrow> take_exact 4 bs1; Some (ucast (from_le_bytes buffer :: u32), bs) }
      else do {
        (buffer, bs) \<leftarrow> take_exact 8 bs1; Some (from_le_bytes buffer, bs) }) = Some (v, r)"
    by (auto simp add: strict_compact_size_def bind_splits length_Suc_conv)
  consider "m \<le> 252" | "m = 253" | "m = 254" | "m = 255"
    using u8_marker_cases [of m] by blast
  then show thesis
  proof cases
    case 1
    with m rest that [of "Form1 m"] show thesis by simp
  next
    case 2
    with rest obtain b where b: "bs1 = b @ r" "length b = 2" "v = ucast (from_le_bytes b :: u16)"
      by (auto simp add: bind_splits)
    from b(2) have "to_le_bytes 2 (from_le_bytes b :: u16) = b"
      using to_le_bytes_from_le_bytes [of b, where ?'a = 16] by simp
    with 2 m b that [of "Form3 (from_le_bytes b)"] show thesis by simp
  next
    case 3
    with rest obtain b where b: "bs1 = b @ r" "length b = 4" "v = ucast (from_le_bytes b :: u32)"
      by (auto simp add: bind_splits)
    from b(2) have "to_le_bytes 4 (from_le_bytes b :: u32) = b"
      using to_le_bytes_from_le_bytes [of b, where ?'a = 32] by simp
    with 3 m b that [of "Form5 (from_le_bytes b)"] show thesis by simp
  next
    case 4
    with rest obtain b where b: "bs1 = b @ r" "length b = 8" "v = (from_le_bytes b :: u64)"
      by (auto simp add: bind_splits)
    from b(2) have "to_le_bytes 8 (from_le_bytes b :: u64) = b"
      using to_le_bytes_from_le_bytes [of b, where ?'a = 64] by simp
    with 4 m b that [of "Form9 (from_le_bytes b)"] show thesis by simp
  qed
qed

lemma strict_compact_size_encode:
  assumes "n < 2 ^ 64"
  shows "strict_compact_size (compact_size n @ r) = Some (of_nat n, r)"
  using strict_compact_size_form [OF form_ok_canonical, of n r] assms
  by (simp add: compact_size_canonical form_value_canonical)

section \<open>The strict decoder accepts the wire format\<close>

lemma strict_script_encode:
  assumes "length s < 2 ^ 64"
  shows "strict_script (encode_script s @ r) = Some (s, r)"
  using assms strict_compact_size_encode [OF assms, of "s @ r"]
  by (simp add: strict_script_def encode_script_def unat_of_nat_u64)

lemma strict_input_encode:
  assumes "wf_input i"
  shows "strict_input (encode_input i @ r) = Some (i, r)"
proof -
  from assms have "length (rev (txid (previous_output i))) = 32"
    and "length (script_sig i) < 2 ^ 64"
    by (simp_all add: wf_input_def wf_outpoint_def isize_MAX_def)
  then show ?thesis
    by (simp add: strict_input_def encode_input_def encode_outpoint_def take_exact_append_n
        strict_script_encode from_le_bytes_to_le_bytes)
qed

lemma strict_inputs_encode:
  assumes "list_all wf_input is"
  shows "strict_inputs (length is) (concat (map encode_input is) @ r) = Some (is, r)"
  using assms by (induction "is") (simp_all add: strict_input_encode)

lemma strict_output_encode:
  assumes "wf_output out"
  shows "strict_output (encode_output out @ r) = Some (out, r)"
proof -
  from assms have "length (script_pubkey out) < 2 ^ 64"
    by (simp add: wf_output_def isize_MAX_def)
  then show ?thesis
    by (simp add: strict_output_def encode_output_def take_exact_append_n
        strict_script_encode from_le_bytes_to_le_bytes)
qed

lemma strict_outputs_encode:
  assumes "list_all wf_output os"
  shows "strict_outputs (length os) (concat (map encode_output os) @ r) = Some (os, r)"
  using assms by (induction os) (simp_all add: strict_output_encode)

lemma decode_strict_encode_tx:
  assumes "wf_tx tx"
  shows "decode_strict (encode_tx tx @ rest) = Some (tx, rest)"
proof -
  from assms have wf: "list_all wf_input (inputs tx)" "list_all wf_output (outputs tx)"
    by (simp_all add: wf_tx_def)
  from wf_tx_counts [OF assms] length_encode_tx_ge [of tx] show ?thesis
    by (simp add: decode_strict_def encode_tx_def take_exact_append_n
        strict_compact_size_encode unat_of_nat_u64 strict_inputs_encode [OF wf(1)]
        strict_outputs_encode [OF wf(2)] from_le_bytes_to_le_bytes)
qed

section \<open>The source's decoder against the strict decoder\<close>

lemma sim_take:
  assumes "take_exact n (remaining_slice c) = Some (x, r)"
  shows "read_array n c = (x, advance n c)" and "remaining_slice (advance n c) = r"
  using assms read_field [of c x r n] by (simp_all add: take_exact_Some_iff)

lemma sim_compact_size:
  assumes "strict_compact_size (remaining_slice c) = Some (v, r)"
  obtains c' where "read_compact_size c = (v, c')" and "remaining_slice c' = r"
proof -
  from assms obtain f where f: "form_ok f" "remaining_slice c = form_bytes f @ r"
    "v = form_value f"
    by (rule strict_compact_size_SomeE)
  from read_form [OF f(2,1)] remaining_slice_advance_append [OF f(2)] f(3) that
  show thesis by simp
qed

lemma sim_script:
  assumes "strict_script (remaining_slice c) = Some (s, r)" and "length s \<le> isize_MAX"
  obtains n c1 c' where "read_compact_size c = (n, c1)"
    and "read_scriptsig n c1 = Returns (s, c')" and "remaining_slice c' = r"
proof -
  from assms(1) obtain n bs1 where n: "strict_compact_size (remaining_slice c) = Some (n, bs1)"
    and t: "take_exact (unat n) bs1 = Some (s, r)"
    by (auto simp add: strict_script_def bind_eq_Some_conv)
  from n obtain c1 where c1: "read_compact_size c = (n, c1)" "remaining_slice c1 = bs1"
    by (rule sim_compact_size)
  from t c1(2) have t': "take_exact (unat n) (remaining_slice c1) = Some (s, r)" by simp
  from t have "length s = unat n" by (simp add: take_exact_Some_iff)
  with assms(2) sim_take(1) [OF t']
  have "read_scriptsig n c1 = Returns (s, advance (unat n) c1)"
    by (simp add: read_scriptsig_eq)
  with c1(1) sim_take(2) [OF t'] that show thesis by blast
qed

lemma sim_input:
  assumes "strict_input (remaining_slice c) = Some (i, r)" and "wf_input i"
  obtains c' where "read_input c = Returns (i, c')" and "remaining_slice c' = r"
proof -
  from assms(1) obtain t b1 v b2 s b3 q where
    1: "take_exact 32 (remaining_slice c) = Some (t, b1)"
    and 2: "take_exact 4 b1 = Some (v, b2)"
    and 3: "strict_script b2 = Some (s, b3)"
    and 4: "take_exact 4 b3 = Some (q, r)"
    and i: "i = \<lparr>previous_output = \<lparr>txid = rev t, vout = from_le_bytes v\<rparr>,
            script_sig = s, sequence = from_le_bytes q\<rparr>"
    by (auto simp add: strict_input_def bind_eq_Some_conv)
  note a = sim_take [OF 1]
  from 2 a(2) have "take_exact 4 (remaining_slice (advance 32 c)) = Some (v, b2)" by simp
  note b = sim_take [OF this]
  from 3 b(2) have s3: "strict_script (remaining_slice (advance 4 (advance 32 c))) = Some (s, b3)"
    by simp
  from assms(2) i have "length s \<le> isize_MAX" by (simp add: wf_input_def)
  with s3 obtain n c3 c4 where c: "read_compact_size (advance 4 (advance 32 c)) = (n, c3)"
    "read_scriptsig n c3 = Returns (s, c4)" "remaining_slice c4 = b3"
    by (rule sim_script)
  from 4 c(3) have "take_exact 4 (remaining_slice c4) = Some (q, r)" by simp
  note d = sim_take [OF this]
  from read_input_steps [OF a(1) b(1) c(1,2) d(1)] d(2) i that show thesis by simp
qed

lemma sim_output:
  assumes "strict_output (remaining_slice c) = Some (out, r)" and "wf_output out"
  obtains c' where "read_output c = Returns (out, c')" and "remaining_slice c' = r"
proof -
  from assms(1) obtain a b1 s where
    1: "take_exact 8 (remaining_slice c) = Some (a, b1)"
    and 2: "strict_script b1 = Some (s, r)"
    and out: "out = \<lparr>value_sats = from_le_bytes a, script_pubkey = s\<rparr>"
    by (auto simp add: strict_output_def bind_eq_Some_conv)
  note a = sim_take [OF 1]
  from 2 a(2) have s2: "strict_script (remaining_slice (advance 8 c)) = Some (s, r)" by simp
  from assms(2) out have "length s \<le> isize_MAX" by (simp add: wf_output_def)
  with s2 obtain n c2 c3 where c: "read_compact_size (advance 8 c) = (n, c2)"
    "read_scriptsig n c2 = Returns (s, c3)" "remaining_slice c3 = r"
    by (rule sim_script)
  from read_output_steps [OF a(1) c(1,2)] c(3) out that show thesis by simp
qed

lemma sim_inputs_aux:
  assumes "strict_inputs n (remaining_slice c) = Some (is, r)" and "list_all wf_input is"
  shows "length is = n
    \<and> (\<exists>c'. read_inputs n acc c = Returns (acc @ is, c') \<and> remaining_slice c' = r)"
  using assms
proof (induction n arbitrary: c acc "is")
  case 0
  then show ?case by simp
next
  case (Suc n)
  from Suc.prems(1) obtain i b1 is' where i: "strict_input (remaining_slice c) = Some (i, b1)"
    and rest: "strict_inputs n b1 = Some (is', r)" and "is": "is = i # is'"
    by (auto simp add: bind_eq_Some_conv)
  from Suc.prems(2) "is" have wf: "wf_input i" "list_all wf_input is'" by simp_all
  from i wf(1) obtain c1 where c1: "read_input c = Returns (i, c1)" "remaining_slice c1 = b1"
    by (rule sim_input)
  from rest c1(2) have "strict_inputs n (remaining_slice c1) = Some (is', r)" by simp
  from Suc.IH [OF this wf(2), of "acc @ [i]"] c1(1) "is" show ?case by simp
qed

lemma sim_outputs_aux:
  assumes "strict_outputs n (remaining_slice c) = Some (os, r)" and "list_all wf_output os"
  shows "length os = n
    \<and> (\<exists>c'. read_outputs n acc c = Returns (acc @ os, c') \<and> remaining_slice c' = r)"
  using assms
proof (induction n arbitrary: c acc os)
  case 0
  then show ?case by simp
next
  case (Suc n)
  from Suc.prems(1) obtain out b1 os' where out: "strict_output (remaining_slice c) = Some (out, b1)"
    and rest: "strict_outputs n b1 = Some (os', r)" and os: "os = out # os'"
    by (auto simp add: bind_eq_Some_conv)
  from Suc.prems(2) os have wf: "wf_output out" "list_all wf_output os'" by simp_all
  from out wf(1) obtain c1 where c1: "read_output c = Returns (out, c1)" "remaining_slice c1 = b1"
    by (rule sim_output)
  from rest c1(2) have "strict_outputs n (remaining_slice c1) = Some (os', r)" by simp
  from Suc.IH [OF this wf(2), of "acc @ [out]"] c1(1) os show ?case by simp
qed

text \<open>
  Claim C2. The source's decoder refines the strict decoder on everything the strict
  decoder accepts: when \<open>decode_strict\<close> returns a transaction for a buffer, with
  canonical or non-canonical counts and whatever bytes behind it, and the transaction
  is within the sizes a \<open>Vec\<close> can have, \<open>try_from\<close> returns the same transaction.
\<close>

theorem decode_strict_refined:
  assumes "decode_strict data = Some (tx, rest)" and "wf_tx tx"
  shows "try_from data = Returns (Ok tx)"
proof -
  from assms(1) have len: "10 \<le> length data"
    by (simp add: decode_strict_def split: if_splits)
  with assms(1) obtain v b1 n b2 "is" b3 m b4 os b5 l where
    1: "take_exact 4 (remaining_slice (cursor_new data)) = Some (v, b1)"
    and 2: "strict_compact_size b1 = Some (n, b2)"
    and 3: "strict_inputs (unat n) b2 = Some (is, b3)"
    and 4: "strict_compact_size b3 = Some (m, b4)"
    and 5: "strict_outputs (unat m) b4 = Some (os, b5)"
    and 6: "take_exact 4 b5 = Some (l, rest)"
    and tx: "tx = \<lparr>version = from_le_bytes v, inputs = is, outputs = os,
        lock_time = from_le_bytes l\<rparr>"
    by (auto simp add: decode_strict_def bind_eq_Some_conv)
  from assms(2) tx have wf: "list_all wf_input is" "list_all wf_output os"
    "length is * size_of_TxInput \<le> isize_MAX"
    by (simp_all add: wf_tx_def)
  note a = sim_take [OF 1]
  from 2 a(2) obtain c2 where c2: "read_compact_size (advance 4 (cursor_new data)) = (n, c2)"
    "remaining_slice c2 = b2"
    by (auto elim: sim_compact_size)
  from 3 c2(2) have "strict_inputs (unat n) (remaining_slice c2) = Some (is, b3)" by simp
  from sim_inputs_aux [OF this wf(1), of "[]"] obtain c3 where
    c3: "length is = unat n" "read_inputs (unat n) [] c2 = Returns (is, c3)"
    "remaining_slice c3 = b3"
    by auto
  from 4 c3(3) obtain c4 where c4: "read_compact_size c3 = (m, c4)" "remaining_slice c4 = b4"
    by (auto elim: sim_compact_size)
  from 5 c4(2) have "strict_outputs (unat m) (remaining_slice c4) = Some (os, b5)" by simp
  from sim_outputs_aux [OF this wf(2), of "[]"] obtain c5 where
    c5: "read_outputs (unat m) [] c4 = Returns (os, c5)" "remaining_slice c5 = b5"
    by auto
  from 6 c5(2) have "take_exact 4 (remaining_slice c5) = Some (l, rest)" by simp
  note f = sim_take [OF this]
  from wf(3) c3(1) have cap: "unat n * size_of_TxInput \<le> isize_MAX" by simp
  from try_from_steps [OF len a(1) c2(1) cap c3(2) c4(1) c5(1) f(1)] tx
  show ?thesis by simp
qed

theorem decode_strict_refined_witness:
  "decode_strict [1, 0, 0, 0, 253, 0, 0, 253, 0, 0, 0, 0, 0, 0, 9]
     = Some (\<lparr>version = 1, inputs = [], outputs = [], lock_time = 0\<rparr>, [9])
   \<and> wf_tx \<lparr>version = 1, inputs = [], outputs = [], lock_time = 0\<rparr>
   \<and> try_from [1, 0, 0, 0, 253, 0, 0, 253, 0, 0, 0, 0, 0, 0, 9]
       = Returns (Ok \<lparr>version = 1, inputs = [], outputs = [], lock_time = 0\<rparr>)"
proof -
  have "decode_strict [1, 0, 0, 0, 253, 0, 0, 253, 0, 0, 0, 0, 0, 0, 9]
     = Some (\<lparr>version = 1, inputs = [], outputs = [], lock_time = 0\<rparr>, [9])"
    by (simp add: decode_strict_def strict_compact_size_def take_exact_def codec_eval)
  with decode_strict_refined [of "[1, 0, 0, 0, 253, 0, 0, 253, 0, 0, 0, 0, 0, 0, 9]"
      "\<lparr>version = 1, inputs = [], outputs = [], lock_time = 0\<rparr>" "[9]"]
  show ?thesis by simp
qed

section \<open>The strict decoder follows the source's cursor\<close>

text \<open>
  For the converse the strict decoder is run beside the source, read by read. Its state
  is the bytes that remain, or \<open>None\<close> once a read came short; \<open>follows\<close> relates it to
  the cursor: the same bytes remain, or the cursor is at the end of the data, where
  every later read returns zeros and stays. Each read of the source then has a strict
  read that returns the same value or fails (\<open>follows_take\<close>, \<open>follows_compact_size\<close>,
  \<open>follows_script\<close>, \<open>follows_input\<close>, \<open>follows_inputs\<close> and the same for outputs), and
  \<open>bind_chain\<close> composes them along the decoder.
\<close>

definition follows :: "bytes option \<Rightarrow> cursor \<Rightarrow> bool" where
  "follows r c \<longleftrightarrow>
     (case r of Some bs \<Rightarrow> remaining_slice c = bs | None \<Rightarrow> cursor_ok c \<and> at_eof c)"

lemma follows_simps [simp]:
  "follows (Some bs) c \<longleftrightarrow> remaining_slice c = bs"
  "follows None c \<longleftrightarrow> cursor_ok c \<and> at_eof c"
  by (simp_all add: follows_def)

lemma follows_seek_end [simp]: "follows None (seek_end c)"
  by simp

lemma follows_take:
  assumes "follows r c" and "read_array n c = (x, c')"
  obtains r' where "follows r' c'" and "Option.bind r (take_exact n) = map_option (Pair x) r'"
    and "r' = None \<longrightarrow> x = replicate n 0"
proof (cases r)
  case None
  with assms(1) have d: "cursor_ok c" "at_eof c" by simp_all
  from read_array_eof [OF d, of n] assms(2) have "x = replicate n 0" "c' = c" by simp_all
  with d None that [of None] show thesis by simp
next
  case (Some bs)
  with assms(1) have bs: "remaining_slice c = bs" by simp
  show thesis
  proof (cases "n \<le> length bs")
    case True
    with bs have t: "take_exact n (remaining_slice c) = Some (take n bs, drop n bs)"
      by (simp add: take_exact_def)
    from sim_take [OF t] assms(2) have "x = take n bs" "remaining_slice c' = drop n bs"
      by simp_all
    with t bs Some that [of "Some (drop n bs)"] show thesis by simp
  next
    case False
    with bs have "length (remaining_slice c) < n" by simp
    from read_array_short_seek [OF this] assms(2)
    have "x = replicate n 0" "c' = seek_end c" by simp_all
    with False bs Some that [of None] show thesis by (simp add: take_exact_def)
  qed
qed

lemma strict_compact_size_None:
  assumes "strict_compact_size (remaining_slice c) = None"
  shows "read_compact_size c = (0, seek_end c)"
proof (cases "remaining_slice c")
  case Nil
  then have "read_array 1 c = ([0], seek_end c)"
    using read_array_short_seek [of c 1] by simp
  from read_compact_size_marker [OF this] show ?thesis by simp
next
  case (Cons m bs)
  then have r: "remaining_slice c = [m] @ bs" by simp
  note 1 = read_field [OF r, of 1]
  from assms Cons have "252 < m" and "length (remaining_slice (advance 1 c)) < payload_len m"
    using u8_marker_cases [of m] 1(2)
    by (auto simp add: strict_compact_size_def take_exact_def payload_len_def
        split: if_splits)
  from read_payload_short [OF _ this] 1(1) show ?thesis
    by (simp add: seek_end_def advance_def)
qed

lemma follows_compact_size:
  assumes "follows r c" and "read_compact_size c = (v, c')"
  obtains r' where "follows r' c'"
    and "Option.bind r strict_compact_size = map_option (Pair v) r'"
proof (cases "Option.bind r strict_compact_size")
  case None
  have "cursor_ok c' \<and> at_eof c'"
  proof (cases r)
    case None
    with assms(1) have d: "cursor_ok c" "at_eof c" by simp_all
    from read_compact_size_eof [OF d] assms(2) d show ?thesis by simp
  next
    case (Some bs)
    with None assms(1) have "strict_compact_size (remaining_slice c) = None" by simp
    from strict_compact_size_None [OF this] assms(2) show ?thesis by simp
  qed
  with None that [of None] show thesis by simp
next
  case (Some p)
  then obtain bs v' bs' where r: "r = Some bs" and p: "strict_compact_size bs = Some (v', bs')"
    by (cases r; cases p) auto
  from r assms(1) p have "strict_compact_size (remaining_slice c) = Some (v', bs')" by simp
  then obtain c1 where "read_compact_size c = (v', c1)" "remaining_slice c1 = bs'"
    by (rule sim_compact_size)
  with assms(2) r p that [of "Some bs'"] show thesis by simp
qed

lemma follows_script:
  assumes "follows r c" and "read_compact_size c = (n, c1)"
    and "read_scriptsig n c1 = Returns (s, c')"
  obtains r' where "follows r' c'" and "Option.bind r strict_script = map_option (Pair s) r'"
proof -
  from assms(1,2) obtain r1 where r1: "follows r1 c1"
    "Option.bind r strict_compact_size = map_option (Pair n) r1"
    by (rule follows_compact_size)
  from assms(3) have "read_array (unat n) c1 = (s, c')"
    by (simp add: read_scriptsig_eq split: if_splits)
  with r1(1) obtain r' where r': "follows r' c'"
    "Option.bind r1 (take_exact (unat n)) = map_option (Pair s) r'"
    by (rule follows_take)
  have "Option.bind r strict_script
      = Option.bind (Option.bind r strict_compact_size) (\<lambda>(len, bs). take_exact (unat len) bs)"
    by (cases r) (simp_all add: strict_script_def)
  also have "\<dots> = map_option (Pair s) r'"
    by (simp add: r1(2) r'(2) [symmetric] bind_map_option comp_def)
  finally show thesis using r'(1) that by blast
qed

lemma bind_chain:
  assumes "Option.bind r f = map_option (Pair x) r1"
  shows "Option.bind r (\<lambda>bs. Option.bind (f bs) (\<lambda>(y, bs). g y bs)) = Option.bind r1 (g x)"
proof -
  have "Option.bind r (\<lambda>bs. Option.bind (f bs) (\<lambda>(y, bs). g y bs))
      = Option.bind (Option.bind r f) (\<lambda>(y, bs). g y bs)"
    by simp
  also have "\<dots> = Option.bind r1 (g x)"
    by (simp add: assms bind_map_option comp_def)
  finally show ?thesis .
qed

lemma bind_Some_Pair: "Option.bind r (\<lambda>bs. Some (x, bs)) = map_option (Pair x) r"
  by (cases r) simp_all

lemma follows_input:
  assumes "follows r c" and "read_input c = Returns (i, c')"
  obtains r' where "follows r' c'" and "Option.bind r strict_input = map_option (Pair i) r'"
  using assms(2)
proof (rule read_input_ReturnsE)
  fix t c1 v c2 n c3 s c4 q
  assume 1: "read_array 32 c = (t, c1)" and 2: "read_array 4 c1 = (v, c2)"
    and 3: "read_compact_size c2 = (n, c3)" and 4: "read_scriptsig n c3 = Returns (s, c4)"
    and 5: "read_array 4 c4 = (q, c')"
    and i: "i = \<lparr>previous_output = \<lparr>txid = rev t, vout = from_le_bytes v\<rparr>,
            script_sig = s, sequence = from_le_bytes q\<rparr>"
  from assms(1) 1 obtain r1 where r1: "follows r1 c1"
    "Option.bind r (take_exact 32) = map_option (Pair t) r1" by (rule follows_take)
  from r1(1) 2 obtain r2 where r2: "follows r2 c2"
    "Option.bind r1 (take_exact 4) = map_option (Pair v) r2" by (rule follows_take)
  from r2(1) 3 4 obtain r4 where r4: "follows r4 c4"
    "Option.bind r2 strict_script = map_option (Pair s) r4" by (rule follows_script)
  from r4(1) 5 obtain r5 where r5: "follows r5 c'"
    "Option.bind r4 (take_exact 4) = map_option (Pair q) r5" by (rule follows_take)
  have "Option.bind r strict_input = Option.bind r (\<lambda>bs. Option.bind (take_exact 32 bs)
      (\<lambda>(t, bs). Option.bind (take_exact 4 bs) (\<lambda>(v, bs). Option.bind (strict_script bs)
      (\<lambda>(s, bs). Option.bind (take_exact 4 bs) (\<lambda>(q, bs).
        Some (\<lparr>previous_output = \<lparr>txid = rev t, vout = from_le_bytes v\<rparr>,
            script_sig = s, sequence = from_le_bytes q\<rparr>, bs))))))"
    by (cases r) (simp_all add: strict_input_def)
  also note bind_chain [OF r1(2)]
  also note bind_chain [OF r2(2)]
  also note bind_chain [OF r4(2)]
  also note bind_chain [OF r5(2)]
  also note bind_Some_Pair
  finally show thesis using r5(1) i that by blast
qed

lemma follows_output:
  assumes "follows r c" and "read_output c = Returns (out, c')"
  obtains r' where "follows r' c'" and "Option.bind r strict_output = map_option (Pair out) r'"
  using assms(2)
proof (rule read_output_ReturnsE)
  fix a c1 n c2 s
  assume 1: "read_array 8 c = (a, c1)" and 2: "read_compact_size c1 = (n, c2)"
    and 3: "read_scriptsig n c2 = Returns (s, c')"
    and out: "out = \<lparr>value_sats = from_le_bytes a, script_pubkey = s\<rparr>"
  from assms(1) 1 obtain r1 where r1: "follows r1 c1"
    "Option.bind r (take_exact 8) = map_option (Pair a) r1" by (rule follows_take)
  from r1(1) 2 3 obtain r3 where r3: "follows r3 c'"
    "Option.bind r1 strict_script = map_option (Pair s) r3" by (rule follows_script)
  have "Option.bind r strict_output = Option.bind r (\<lambda>bs. Option.bind (take_exact 8 bs)
      (\<lambda>(a, bs). Option.bind (strict_script bs) (\<lambda>(s, bs).
        Some (\<lparr>value_sats = from_le_bytes a, script_pubkey = s\<rparr>, bs))))"
    by (cases r) (simp_all add: strict_output_def)
  also note bind_chain [OF r1(2)]
  also note bind_chain [OF r3(2)]
  also note bind_Some_Pair
  finally show thesis using r3(1) out that by blast
qed

lemma follows_inputs:
  assumes "follows r c" and "read_inputs n acc c = Returns (xs, c')"
  shows "\<exists>r' is. xs = acc @ is \<and> follows r' c'
    \<and> Option.bind r (strict_inputs n) = map_option (Pair is) r'"
  using assms
proof (induction n arbitrary: r c acc)
  case 0
  then show ?case
    by (intro exI [of _ r] exI [of _ "[]"]) (cases r; simp)
next
  case (Suc n)
  from Suc.prems(2) obtain i c1 where i: "read_input c = Returns (i, c1)"
    and rest: "read_inputs n (acc @ [i]) c1 = Returns (xs, c')"
    by (auto simp add: and_then_Returns_iff)
  from Suc.prems(1) i obtain r1 where r1: "follows r1 c1"
    "Option.bind r strict_input = map_option (Pair i) r1" by (rule follows_input)
  from Suc.IH [OF r1(1) rest] obtain r' "is" where r': "xs = (acc @ [i]) @ is" "follows r' c'"
    "Option.bind r1 (strict_inputs n) = map_option (Pair is) r'" by blast
  have "Option.bind r (strict_inputs (Suc n)) = Option.bind r (\<lambda>bs. Option.bind (strict_input bs)
      (\<lambda>(i, bs). Option.bind (strict_inputs n bs) (\<lambda>(is, bs). Some (i # is, bs))))"
    by (cases r) simp_all
  also note bind_chain [OF r1(2)]
  also note bind_chain [OF r'(3)]
  also note bind_Some_Pair
  finally have "Option.bind r (strict_inputs (Suc n)) = map_option (Pair (i # is)) r'" .
  moreover from r'(1) have "xs = acc @ (i # is)" by simp
  ultimately show ?case using r'(2) by blast
qed

lemma follows_outputs:
  assumes "follows r c" and "read_outputs n acc c = Returns (xs, c')"
  shows "\<exists>r' os. xs = acc @ os \<and> follows r' c'
    \<and> Option.bind r (strict_outputs n) = map_option (Pair os) r'"
  using assms
proof (induction n arbitrary: r c acc)
  case 0
  then show ?case
    by (intro exI [of _ r] exI [of _ "[]"]) (cases r; simp)
next
  case (Suc n)
  from Suc.prems(2) obtain out c1 where out: "read_output c = Returns (out, c1)"
    and rest: "read_outputs n (acc @ [out]) c1 = Returns (xs, c')"
    by (auto simp add: and_then_Returns_iff)
  from Suc.prems(1) out obtain r1 where r1: "follows r1 c1"
    "Option.bind r strict_output = map_option (Pair out) r1" by (rule follows_output)
  from Suc.IH [OF r1(1) rest] obtain r' os where r': "xs = (acc @ [out]) @ os" "follows r' c'"
    "Option.bind r1 (strict_outputs n) = map_option (Pair os) r'" by blast
  have "Option.bind r (strict_outputs (Suc n)) = Option.bind r (\<lambda>bs. Option.bind (strict_output bs)
      (\<lambda>(out, bs). Option.bind (strict_outputs n bs) (\<lambda>(os, bs). Some (out # os, bs))))"
    by (cases r) simp_all
  also note bind_chain [OF r1(2)]
  also note bind_chain [OF r'(3)]
  also note bind_Some_Pair
  finally have "Option.bind r (strict_outputs (Suc n)) = map_option (Pair (out # os)) r'" .
  moreover from r'(1) have "xs = acc @ (out # os)" by simp
  ultimately show ?case using r'(2) by blast
qed

lemma decode_strict_unfold:
  assumes "10 \<le> length data"
  shows "decode_strict data = Option.bind (Some data) (\<lambda>bs. Option.bind (take_exact 4 bs)
      (\<lambda>(v, bs). Option.bind (strict_compact_size bs)
      (\<lambda>(n, bs). Option.bind (strict_inputs (unat n) bs)
      (\<lambda>(is, bs). Option.bind (strict_compact_size bs)
      (\<lambda>(m, bs). Option.bind (strict_outputs (unat m) bs)
      (\<lambda>(os, bs). Option.bind (take_exact 4 bs)
      (\<lambda>(l, bs). Some (\<lparr>version = from_le_bytes v, inputs = is, outputs = os,
          lock_time = from_le_bytes l\<rparr>, bs))))))))"
  using assms by (simp add: decode_strict_def)

text \<open>
  Claim C3. The converse: \<open>try_from\<close> never returns a transaction that differs from the
  strict decoder's. Whenever it returns a transaction, either the strict decoder returns
  the same one, or the strict decoder rejects the buffer (some read came short) and the
  lock time of the returned transaction is 0, the value read from no data. So a caller
  cannot tell a truncated transaction from a complete one with lock time 0.
\<close>

theorem try_from_Ok_strict:
  assumes "try_from data = Returns (Ok tx)"
  shows "(\<exists>rest. decode_strict data = Some (tx, rest))
    \<or> (decode_strict data = None \<and> lock_time tx = 0)"
  using assms
proof (rule try_from_OkE)
  fix v c1 n c2 c3 m c4 c5 l c6
  assume len: "10 \<le> length data"
    and 1: "read_array 4 (cursor_new data) = (v, c1)" and 2: "read_compact_size c1 = (n, c2)"
    and 3: "read_inputs (unat n) [] c2 = Returns (inputs tx, c3)"
    and 4: "read_compact_size c3 = (m, c4)"
    and 5: "read_outputs (unat m) [] c4 = Returns (outputs tx, c5)"
    and 6: "read_array 4 c5 = (l, c6)"
    and tx: "version tx = from_le_bytes v" "lock_time tx = from_le_bytes l"
  have "follows (Some data) (cursor_new data)" by simp
  from this 1 obtain r1 where r1: "follows r1 c1"
    "Option.bind (Some data) (take_exact 4) = map_option (Pair v) r1" by (rule follows_take)
  from r1(1) 2 obtain r2 where r2: "follows r2 c2"
    "Option.bind r1 strict_compact_size = map_option (Pair n) r2"
    by (rule follows_compact_size)
  from follows_inputs [OF r2(1) 3] obtain r3 where r3: "follows r3 c3"
    "Option.bind r2 (strict_inputs (unat n)) = map_option (Pair (inputs tx)) r3" by auto
  from r3(1) 4 obtain r4 where r4: "follows r4 c4"
    "Option.bind r3 strict_compact_size = map_option (Pair m) r4"
    by (rule follows_compact_size)
  from follows_outputs [OF r4(1) 5] obtain r5 where r5: "follows r5 c5"
    "Option.bind r4 (strict_outputs (unat m)) = map_option (Pair (outputs tx)) r5" by auto
  from r5(1) 6 obtain r6 where r6: "follows r6 c6"
    "Option.bind r5 (take_exact 4) = map_option (Pair l) r6"
    "r6 = None \<longrightarrow> l = replicate 4 0" by (rule follows_take)
  note decode_strict_unfold [OF len]
  also note bind_chain [OF r1(2)]
  also note bind_chain [OF r2(2)]
  also note bind_chain [OF r3(2)]
  also note bind_chain [OF r4(2)]
  also note bind_chain [OF r5(2)]
  also note bind_chain [OF r6(2)]
  also note bind_Some_Pair
  finally have "decode_strict data = map_option (Pair \<lparr>version = from_le_bytes v,
      inputs = inputs tx, outputs = outputs tx, lock_time = from_le_bytes l\<rparr>) r6" .
  moreover from tx have "tx = \<lparr>version = from_le_bytes v,
      inputs = inputs tx, outputs = outputs tx, lock_time = from_le_bytes l\<rparr>"
    by (cases tx) simp
  ultimately have "decode_strict data = map_option (Pair tx) r6" by simp
  with r6(3) tx(2) show ?thesis by (cases r6) simp_all
qed

theorem try_from_Ok_strict_witness:
  "try_from [1, 0, 0, 0, 1, 0, 0, 0, 0, 0]
     = Returns (Ok \<lparr>version = 1,
         inputs = [\<lparr>previous_output = \<lparr>txid = replicate 32 0, vout = 0\<rparr>,
                    script_sig = [], sequence = 0\<rparr>],
         outputs = [], lock_time = 0\<rparr>)
   \<and> ((\<exists>rest. decode_strict [1, 0, 0, 0, 1, 0, 0, 0, 0, 0]
         = Some (\<lparr>version = 1,
             inputs = [\<lparr>previous_output = \<lparr>txid = replicate 32 0, vout = 0\<rparr>,
                        script_sig = [], sequence = 0\<rparr>],
             outputs = [], lock_time = 0\<rparr>, rest))
      \<or> decode_strict [1, 0, 0, 0, 1, 0, 0, 0, 0, 0] = None)"
  using try_from_Ok_strict [OF try_from_one_zero_input] try_from_one_zero_input by simp

end
