(* ===== verification/Serialize.thy ===== *)
theory Serialize
  imports Decoder Wire_Format
begin

text \<open>
  The encoder that \<open>src/src/lib.rs\<close> has: the trait \<open>BitcoinSerialize\<close>, whose default
  method is \<open>todo!()\<close>, and its implementation for \<open>LegacyTransaction\<close>, which writes the
  version and the lock time and nothing else. The lemmas say what it writes and relate
  it to the wire format and to the decoder: its output is the first and the last four
  bytes of the wire format, it cannot tell two transactions with the same version and
  lock time apart, and the decoder rejects it.
\<close>

section \<open>Definitions\<close>

definition serialize_default :: "'a \<Rightarrow> bytes outcome" where
  "serialize_default self = Panics NotYetImplemented"

definition serialize :: "LegacyTransaction \<Rightarrow> bytes" where
  "serialize self =
     (let buffer = [];
          version_bytes = to_le_bytes 4 (version self);
          buffer = buffer @ version_bytes;
          lock_time_bytes = to_le_bytes 4 (lock_time self);
          buffer = buffer @ lock_time_bytes
      in buffer)"

section \<open>What is written\<close>

lemma serialize_eq:
  "serialize tx = to_le_bytes 4 (version tx) @ to_le_bytes 4 (lock_time tx)"
  by (simp add: serialize_def)

lemma length_serialize [simp, wire_length]: "length (serialize tx) = 8"
  by (simp add: serialize_eq)

lemma serialize_fields:
  "from_le_bytes (take 4 (serialize tx)) = version tx"
  "from_le_bytes (drop 4 (serialize tx)) = lock_time tx"
  by (simp_all add: serialize_eq from_le_bytes_to_le_bytes)

lemma serialize_wire:
  "serialize tx = take 4 (encode_tx tx) @ drop (length (encode_tx tx) - 4) (encode_tx tx)"
  by (simp add: serialize_eq encode_tx_split encode_tx_body_def)

section \<open>Against the decoder\<close>

text \<open>
  Claim C19. The output of the source's \<open>serialize\<close> is never accepted by its own
  decoder: it has 8 bytes, below the decoder's floor of 10, so \<open>try_from\<close> returns
  \<open>InvalidTransaction\<close> for every transaction. Decoding after encoding does not give
  the transaction back.
\<close>

theorem try_from_serialize: "try_from (serialize tx) = Returns (Err InvalidTransaction)"
  by (simp add: try_from_def)

text \<open>
  Claim C20. \<open>serialize\<close> keeps the version and the lock time and nothing else: two
  transactions serialize to the same bytes exactly when they agree on these two fields,
  whatever they spend and pay.
\<close>

theorem serialize_eq_iff:
  "serialize a = serialize b \<longleftrightarrow> version a = version b \<and> lock_time a = lock_time b"
proof
  assume "serialize a = serialize b"
  with serialize_fields [of a] serialize_fields [of b]
  show "version a = version b \<and> lock_time a = lock_time b" by simp
next
  assume "version a = version b \<and> lock_time a = lock_time b"
  then show "serialize a = serialize b" by (simp add: serialize_eq)
qed

section \<open>Against the wire format\<close>

text \<open>
  Claim C21. What \<open>serialize\<close> writes is the first four and the last four bytes of the
  wire format, and never the wire format itself: the two counts, the inputs and the
  outputs are missing for every transaction.
\<close>

theorem serialize_not_encode_tx:
  "serialize tx = take 4 (encode_tx tx) @ drop (length (encode_tx tx) - 4) (encode_tx tx)
   \<and> serialize tx \<noteq> encode_tx tx"
proof -
  have "serialize tx \<noteq> encode_tx tx"
  proof
    assume "serialize tx = encode_tx tx"
    then have "length (serialize tx) = length (encode_tx tx)" by simp
    with length_encode_tx_ge [of tx] show False by simp
  qed
  with serialize_wire show ?thesis by simp
qed

end
