(* ===== verification/Builder.thy ===== *)
theory Builder
  imports Tx_Model
begin

text \<open>
  The fluent builder of \<open>src/src/lib.rs\<close>: \<open>LegacyTransactionBuilder\<close> with its default
  value, its four setters and \<open>build\<close>, and \<open>LegacyTransaction::builder\<close>. The struct has
  the field names of \<open>LegacyTransaction\<close>; here they are qualified by the record's name.
  The setters \<open>version\<close> and \<open>lock_time\<close> of the source are \<open>builder_version\<close> and
  \<open>builder_lock_time\<close>. A use of the builder is a list of calls (\<open>builder_call\<close>) run
  from the default value; the lemmas give the transaction that is built from any such
  list, and which calls may be reordered.
\<close>

section \<open>State and operations\<close>

record LegacyTransactionBuilder =
  version :: i32
  inputs :: "TxInput list"
  outputs :: "TxOutput list"
  lock_time :: u32

definition builder_default :: LegacyTransactionBuilder where
  "builder_default = \<lparr>version = 1, inputs = [], outputs = [], lock_time = 0\<rparr>"

definition builder_new :: LegacyTransactionBuilder where
  "builder_new = builder_default"

definition builder :: LegacyTransactionBuilder where
  "builder = builder_default"

definition builder_version :: "LegacyTransactionBuilder \<Rightarrow> i32 \<Rightarrow> LegacyTransactionBuilder" where
  "builder_version self v = self\<lparr>version := v\<rparr>"

definition add_input :: "LegacyTransactionBuilder \<Rightarrow> TxInput \<Rightarrow> LegacyTransactionBuilder" where
  "add_input self input = self\<lparr>inputs := inputs self @ [input]\<rparr>"

definition add_output :: "LegacyTransactionBuilder \<Rightarrow> TxOutput \<Rightarrow> LegacyTransactionBuilder" where
  "add_output self output = self\<lparr>outputs := outputs self @ [output]\<rparr>"

definition builder_lock_time :: "LegacyTransactionBuilder \<Rightarrow> u32 \<Rightarrow> LegacyTransactionBuilder" where
  "builder_lock_time self l = self\<lparr>lock_time := l\<rparr>"

definition build :: "LegacyTransactionBuilder \<Rightarrow> LegacyTransaction" where
  "build self =
     (let v = self
      in \<lparr>LegacyTransaction.version = version v, inputs = inputs v,
           outputs = outputs v, lock_time = lock_time v\<rparr>)"

section \<open>Uses of the builder\<close>

datatype builder_call =
    Version i32
  | AddInput TxInput
  | AddOutput TxOutput
  | LockTime u32

fun apply_call :: "LegacyTransactionBuilder \<Rightarrow> builder_call \<Rightarrow> LegacyTransactionBuilder" where
  "apply_call b (Version v) = builder_version b v"
| "apply_call b (AddInput i) = add_input b i"
| "apply_call b (AddOutput out) = add_output b out"
| "apply_call b (LockTime l) = builder_lock_time b l"

definition run_calls :: "builder_call list \<Rightarrow> LegacyTransaction" where
  "run_calls cs = build (foldl apply_call builder_new cs)"

text \<open>What a list of calls asks for, read off the list.\<close>

fun versions_of :: "builder_call list \<Rightarrow> i32 list" where
  "versions_of [] = []"
| "versions_of (Version v # cs) = v # versions_of cs"
| "versions_of (_ # cs) = versions_of cs"

fun inputs_of :: "builder_call list \<Rightarrow> TxInput list" where
  "inputs_of [] = []"
| "inputs_of (AddInput i # cs) = i # inputs_of cs"
| "inputs_of (_ # cs) = inputs_of cs"

fun outputs_of :: "builder_call list \<Rightarrow> TxOutput list" where
  "outputs_of [] = []"
| "outputs_of (AddOutput out # cs) = out # outputs_of cs"
| "outputs_of (_ # cs) = outputs_of cs"

fun lock_times_of :: "builder_call list \<Rightarrow> u32 list" where
  "lock_times_of [] = []"
| "lock_times_of (LockTime l # cs) = l # lock_times_of cs"
| "lock_times_of (_ # cs) = lock_times_of cs"

definition last_or :: "'a \<Rightarrow> 'a list \<Rightarrow> 'a" where
  "last_or d xs = (if xs = [] then d else last xs)"

text \<open>Two calls are independent when they do not write the same field.\<close>

fun independent :: "builder_call \<Rightarrow> builder_call \<Rightarrow> bool" where
  "independent (Version _) (Version _) = False"
| "independent (AddInput _) (AddInput _) = False"
| "independent (AddOutput _) (AddOutput _) = False"
| "independent (LockTime _) (LockTime _) = False"
| "independent _ _ = True"

section \<open>The default value\<close>

lemmas builder_defs = builder_default_def builder_new_def builder_def builder_version_def
  add_input_def add_output_def builder_lock_time_def build_def

lemma build_builder_new:
  "build builder_new = \<lparr>LegacyTransaction.version = 1, inputs = [], outputs = [], lock_time = 0\<rparr>"
  by (simp add: builder_defs)

lemma builder_eq_new: "builder = builder_new"
  by (simp add: builder_defs)

section \<open>Running a list of calls\<close>

lemma last_or_simps [simp]:
  "last_or d [] = d"
  "last_or d (x # xs) = last_or x xs"
  "last_or d (xs @ [x]) = x"
  by (simp_all add: last_or_def)

lemma foldl_apply_call:
  "foldl apply_call b cs =
     \<lparr>version = last_or (version b) (versions_of cs),
      inputs = inputs b @ inputs_of cs,
      outputs = outputs b @ outputs_of cs,
      lock_time = last_or (lock_time b) (lock_times_of cs)\<rparr>"
proof (induction cs arbitrary: b)
  case Nil
  show ?case by simp
next
  case (Cons c cs)
  show ?case by (cases c) (simp_all add: Cons.IH builder_defs)
qed

lemmas run_calls_unfold =
  run_calls_def foldl_apply_call build_def Let_def builder_new_def builder_default_def

text \<open>
  Claim C22. The transaction built from any sequence of builder calls, started from
  the default builder, has the last version that was set (1 if none was), the inputs
  and the outputs in the order they were added, and the last lock time that was set (0
  if none was).
\<close>

theorem run_calls_eq:
  "run_calls cs =
     \<lparr>LegacyTransaction.version = last_or 1 (versions_of cs),
      inputs = inputs_of cs, outputs = outputs_of cs,
      lock_time = last_or 0 (lock_times_of cs)\<rparr>"
  by (simp add: run_calls_unfold)

text \<open>
  Claim C23. Setters of different fields may be called in either order: two calls that
  do not write the same field commute.
\<close>

theorem apply_call_commute:
  assumes "independent c d"
  shows "apply_call (apply_call b c) d = apply_call (apply_call b d) c"
  using assms by (cases c; cases d) (simp_all add: builder_defs)

theorem apply_call_commute_witness:
  "independent (Version 2) (LockTime 500000) \<and>
   apply_call (apply_call builder_new (Version 2)) (LockTime 500000)
     = apply_call (apply_call builder_new (LockTime 500000)) (Version 2)"
  using apply_call_commute [of "Version 2" "LockTime 500000" builder_new] by simp

lemma run_calls_wf:
  assumes "list_all wf_input (inputs_of cs)" and "list_all wf_output (outputs_of cs)"
    and "length (inputs_of cs) * size_of_TxInput \<le> isize_MAX"
    and "length (outputs_of cs) * size_of_TxOutput \<le> isize_MAX"
  shows "wf_tx (run_calls cs)"
  using assms by (simp add: run_calls_unfold wf_tx_def)

end
