(* ===== verification/Cli.thy ===== *)
theory Cli
  imports Tx_Model
begin

text \<open>
  The command-line parser of \<open>src/src/lib.rs\<close>: \<open>CliCommand\<close> and \<open>parse_cli_args\<close>, with
  the standard library's \<open>u64::from_str\<close> that it calls (\<open>from_str_u64\<close>: an optional
  \<open>+\<close>, decimal digits, an error on an empty string, on any other character and on a
  value of \<open>2^64\<close> or more). A Rust \<open>String\<close> is a string of bytes here. \<open>decimal\<close> writes
  a number in decimal digits; it states which amounts are accepted.
  The lemmas characterise the accepted argument lists, give the error of every rejected
  one, and show that the amount read is the number that was written.
\<close>

section \<open>Definitions\<close>

datatype CliCommand = Send u64 string | Balance

datatype IntErrorKind = Empty | InvalidDigit | PosOverflow

definition to_digit :: "char \<Rightarrow> nat option" where
  "to_digit c = (let n = of_char c :: nat in if 48 \<le> n \<and> n \<le> 57 then Some (n - 48) else None)"

fun accumulate :: "nat \<Rightarrow> string \<Rightarrow> (nat, IntErrorKind) result" where
  "accumulate result [] = Ok result"
| "accumulate result (c # cs) =
     (case to_digit c of
        None \<Rightarrow> Err InvalidDigit
      | Some x \<Rightarrow>
          if 2 ^ 64 \<le> result * 10 then Err PosOverflow
          else if 2 ^ 64 \<le> result * 10 + x then Err PosOverflow
          else accumulate (result * 10 + x) cs)"

definition from_str_u64 :: "string \<Rightarrow> (u64, IntErrorKind) result" where
  "from_str_u64 src =
     (if src = [] then Err Empty
      else if src = ''+'' \<or> src = ''-'' then Err InvalidDigit
      else
        let digits = (if hd src = CHR ''+'' then tl src else src)
        in case accumulate 0 digits of
             Ok n \<Rightarrow> Ok (of_nat n)
           | Err e \<Rightarrow> Err e)"

fun parse_cli_args :: "string list \<Rightarrow> (CliCommand, BitcoinError) result" where
  "parse_cli_args [command, amount, address] =
     (if command = ''send'' then
        (case map_err (\<lambda>_. ParseError ''Failed to parse amount'') (from_str_u64 amount) of
           Err e \<Rightarrow> Err e
         | Ok parsed_amount \<Rightarrow> Ok (Send parsed_amount address))
      else if command = ''balance'' then Ok Balance
      else Err (ParseError ''Failed to parse amount''))"
| "parse_cli_args _ = Err (ParseError ''Too few args'')"

text \<open>Decimal notation, most significant digit first.\<close>

definition digit_char :: "nat \<Rightarrow> char" where
  "digit_char d = char_of (48 + d)"

fun decimal :: "nat \<Rightarrow> string" where
  "decimal n = (if n < 10 then [digit_char n] else decimal (n div 10) @ [digit_char (n mod 10)])"

declare decimal.simps [simp del]


section \<open>Digits\<close>

lemma to_digit_digit_char: "d < 10 \<Longrightarrow> to_digit (digit_char d) = Some d"
  by (simp add: to_digit_def digit_char_def)

lemma accumulate_append:
  "accumulate r (xs @ ys) = (case accumulate r xs of Ok r' \<Rightarrow> accumulate r' ys | Err e \<Rightarrow> Err e)"
  by (induction xs arbitrary: r) (auto split: option.splits)

lemma accumulate_step:
  assumes "d < 10" and "r * 10 + d < 2 ^ 64"
  shows "accumulate r [digit_char d] = Ok (r * 10 + d)"
proof -
  from assms(2) have "r * 10 < 2 ^ 64" by simp
  with assms show ?thesis
    by (simp add: to_digit_digit_char)
qed

lemma accumulate_step_overflow:
  assumes "d < 10" and "2 ^ 64 \<le> r * 10 + d"
  shows "accumulate r [digit_char d] = Err PosOverflow"
  using assms by (simp add: to_digit_digit_char)

lemma accumulate_decimal:
  "accumulate 0 (decimal n) = (if n < 2 ^ 64 then Ok n else Err PosOverflow)"
proof (induction n rule: decimal.induct)
  case (1 n)
  show ?case
  proof (cases "n < 10")
    case True
    then have "n < 2 ^ 64" by simp
    with True accumulate_step [of n 0] show ?thesis
      by (subst decimal.simps) simp
  next
    case False
    have d: "n mod 10 < 10" by simp
    have n: "n div 10 * 10 + n mod 10 = n" by simp
    from False 1 have IH: "accumulate 0 (decimal (n div 10))
        = (if n div 10 < 2 ^ 64 then Ok (n div 10) else Err PosOverflow)" by simp
    have dec: "decimal n = decimal (n div 10) @ [digit_char (n mod 10)]"
      using False by (subst decimal.simps) simp
    show ?thesis
    proof (cases "n < 2 ^ 64")
      case True
      then have "n div 10 < 2 ^ 64" by simp
      with True accumulate_step [OF d, of "n div 10"] show ?thesis
        by (simp add: dec accumulate_append IH n del: accumulate.simps)
    next
      case large: False
      show ?thesis
      proof (cases "n div 10 < 2 ^ 64")
        case True
        with large accumulate_step_overflow [OF d, of "n div 10"] show ?thesis
          by (simp add: dec accumulate_append IH n del: accumulate.simps)
      next
        case False
        with large show ?thesis
          by (simp add: dec accumulate_append IH del: accumulate.simps)
      qed
    qed
  qed
qed

lemma digit_char_not_sign:
  "d < 10 \<Longrightarrow> digit_char d \<noteq> CHR ''+''" "d < 10 \<Longrightarrow> digit_char d \<noteq> CHR ''-''"
  using to_digit_digit_char [of d] by (auto simp add: to_digit_def)

lemma decimal_head:
  "\<exists>d cs. d < 10 \<and> decimal n = digit_char d # cs"
proof (induction n rule: decimal.induct)
  case (1 n)
  show ?case
  proof (cases "n < 10")
    case True
    then show ?thesis by (subst decimal.simps) auto
  next
    case False
    with 1 obtain d cs where "d < 10" "decimal (n div 10) = digit_char d # cs" by auto
    with False show ?thesis by (subst decimal.simps) auto
  qed
qed

section \<open>Amounts\<close>

lemma from_str_u64_decimal:
  "from_str_u64 (decimal n) = (if n < 2 ^ 64 then Ok (of_nat n) else Err PosOverflow)"
proof -
  obtain d cs where d: "d < 10" and n: "decimal n = digit_char d # cs"
    using decimal_head [of n] by auto
  from d n have "hd (decimal n) \<noteq> CHR ''+''" "decimal n \<noteq> ''+''" "decimal n \<noteq> ''-''"
    "decimal n \<noteq> []"
    by (auto simp add: digit_char_not_sign)
  then show ?thesis
    by (simp add: from_str_u64_def accumulate_decimal)
qed

lemma from_str_u64_examples:
  "from_str_u64 ''100000'' = Ok 100000"
  "from_str_u64 ''abc'' = Err InvalidDigit"
  "from_str_u64 [] = Err Empty"
  "from_str_u64 ''-5'' = Err InvalidDigit"
  "from_str_u64 ''+5'' = Ok 5"
  by (simp_all add: from_str_u64_def to_digit_def)

section \<open>Commands\<close>

lemma parse_cli_args_three:
  "parse_cli_args [command, amount, address] =
     (if command = ''send'' then
        (case from_str_u64 amount of
           Ok n \<Rightarrow> Ok (Send n address)
         | Err e \<Rightarrow> Err (ParseError ''Failed to parse amount''))
      else if command = ''balance'' then Ok Balance
      else Err (ParseError ''Failed to parse amount''))"
  by (simp split: result.splits)

lemma parse_cli_args_other:
  assumes "length args \<noteq> 3"
  shows "parse_cli_args args = Err (ParseError ''Too few args'')"
  using assms by (cases args rule: parse_cli_args.cases) simp_all

lemmas parse_cli_args_simps = parse_cli_args_three parse_cli_args_other

declare parse_cli_args.simps [simp del]

lemma length_three: "length xs = 3 \<longleftrightarrow> (\<exists>a b c. xs = [a, b, c])"
  by (auto simp add: numeral_3_eq_3 length_Suc_conv)

text \<open>
  Claim C24. \<open>parse_cli_args\<close> accepts exactly two kinds of argument lists: \<open>send\<close>
  followed by an amount that \<open>u64::from_str\<close> accepts and an address, which gives the
  send command with that amount and address, and \<open>balance\<close> followed by two further
  arguments, whatever they are, which gives the balance command.
\<close>

theorem parse_cli_args_Ok_iff:
  "parse_cli_args args = Ok cmd \<longleftrightarrow>
     (\<exists>amount address n. args = [''send'', amount, address]
        \<and> from_str_u64 amount = Ok n \<and> cmd = Send n address)
     \<or> (\<exists>a b. args = [''balance'', a, b] \<and> cmd = Balance)"
proof (cases "length args = 3")
  case True
  then obtain a b c where args: "args = [a, b, c]"
    by (auto simp add: length_three)
  show ?thesis
    unfolding args parse_cli_args_three
    by (auto split: result.splits)
next
  case False
  then have "parse_cli_args args = Err (ParseError ''Too few args'')"
    by (rule parse_cli_args_other)
  with False show ?thesis by auto
qed

text \<open>
  Claim C25. The message \<open>Too few args\<close> is returned exactly for the argument lists
  that do not have three elements, also for those with more than three; in particular
  \<open>balance\<close> alone is rejected with it.
\<close>

theorem parse_cli_args_arity:
  "parse_cli_args args = Err (ParseError ''Too few args'') \<longleftrightarrow> length args \<noteq> 3"
proof (cases "length args = 3")
  case True
  then obtain a b c where "args = [a, b, c]" by (auto simp add: length_three)
  with True show ?thesis by (simp add: parse_cli_args_three split: result.splits)
next
  case False
  then show ?thesis by (simp add: parse_cli_args_other)
qed

theorem parse_cli_args_arity_witness:
  "length [''balance''] \<noteq> 3
   \<and> parse_cli_args [''balance''] = Err (ParseError ''Too few args'')"
  using parse_cli_args_arity [of "[''balance'']"] by simp

text \<open>
  Claim C26. \<open>send\<close> accepts an amount written in decimal exactly when it is below
  \<open>2^64\<close>, and the amount of the command is then that number; a larger amount is
  rejected with the message \<open>Failed to parse amount\<close>.
\<close>

theorem parse_cli_args_send_decimal:
  "parse_cli_args [''send'', decimal n, address] =
     (if n < 2 ^ 64 then Ok (Send (of_nat n) address)
      else Err (ParseError ''Failed to parse amount''))"
  by (simp add: parse_cli_args_three from_str_u64_decimal)

text \<open>
  Claim C27. A first argument other than \<open>send\<close> and \<open>balance\<close> is rejected, and the
  message is that of a bad amount, \<open>Failed to parse amount\<close>, although no amount was
  parsed.
\<close>

theorem parse_cli_args_unknown_command:
  assumes "command \<noteq> ''send''" and "command \<noteq> ''balance''"
  shows "parse_cli_args [command, a, b] = Err (ParseError ''Failed to parse amount'')"
  using assms by (simp add: parse_cli_args_three)

theorem parse_cli_args_unknown_command_witness:
  "''receive'' \<noteq> ''send'' \<and> ''receive'' \<noteq> ''balance''
   \<and> parse_cli_args [''receive'', ''1'', ''x''] = Err (ParseError ''Failed to parse amount'')"
  using parse_cli_args_unknown_command [of "''receive''" "''1''" "''x''"] by simp

lemma parse_cli_args_never_InvalidAmount:
  "parse_cli_args args \<noteq> Err InvalidAmount"
proof (cases "length args = 3")
  case True
  then obtain a b c where "args = [a, b, c]" by (auto simp add: length_three)
  then show ?thesis by (simp add: parse_cli_args_three split: result.splits)
next
  case False
  then show ?thesis by (simp add: parse_cli_args_other)
qed

end
