(* ===== verification/Spec2Isabelle.thy ===== *)
theory Spec2Isabelle
  imports Codec_Prelude Le_Bytes Cursor Tx_Model Compact_Size Wire_Format Decoder Roundtrip
    Truncated_Input Strict_Decoder Serialize Builder Cli
begin

text \<open>
  \<^bold>\<open>A verification development for the legacy Bitcoin transaction codec of
  \<open>src/src/lib.rs\<close>.\<close>

  \<^bold>\<open>The program.\<close> The crate is one file. It has a transaction value
  (\<open>LegacyTransaction\<close> with its \<open>TxInput\<close>, \<open>TxOutput\<close> and \<open>OutPoint\<close>), a decoder
  from bytes (\<open>impl TryFrom<&[u8]> for LegacyTransaction\<close>, with the helpers
  \<open>read_compact_size\<close> and \<open>read_scriptsig\<close>), an encoder (\<open>impl BitcoinSerialize for
  LegacyTransaction\<close>), a builder (\<open>LegacyTransactionBuilder\<close>), a command-line parser
  (\<open>parse_cli_args\<close>, \<open>CliCommand\<close>), the error enum \<open>BitcoinError\<close> and a generic
  \<open>Point\<close>. The decoder walks a \<open>std::io::Cursor\<close> over the input with \<open>read_exact\<close> and
  turns little-endian byte arrays into integers; the builder produces the values the
  encoder writes; the parser stands alone.

  \<^bold>\<open>The theories\<close>, in the order of their dependencies:

  \<^item> \<open>Codec_Prelude\<close>: the machine integer types (\<open>u8\<close> to \<open>u64\<close>, \<open>i32\<close>) as words,
    \<open>result\<close> for Rust's \<open>Result\<close>, \<open>outcome\<close> for a call that returns or panics, with its
    bind \<open>and_then\<close>; the fact collections \<open>codec_eval\<close>, \<open>cursor_simps\<close> and
    \<open>wire_length\<close>; shared lemmas on lists and words.
  \<^item> \<open>Le_Bytes\<close>: \<open>from_le_bytes\<close> and \<open>to_le_bytes\<close> of the standard library, for every
    width, with their bitwise characterisation and both round trips.
  \<^item> \<open>Cursor\<close>: the record \<open>cursor\<close> (buffer and position), \<open>read_exact\<close>, and
    \<open>read_array\<close>, the source's idiom \<open>let mut b = [0; N]; let _ = cursor.read_exact(&mut
    b)\<close>. The lemmas give the cursor invariant \<open>cursor_ok\<close>, both outcomes of a read, and
    reads as consumption of a prefix of \<open>remaining_slice\<close>.
  \<^item> \<open>Tx_Model\<close>: the structs as records, \<open>BitcoinError\<close> with its messages, \<open>Point\<close>, and
    the well-formedness predicate \<open>wf_tx\<close> that states what Rust's types guarantee of a
    transaction (32-byte ids, sizes within \<open>isize::MAX\<close>).
  \<^item> \<open>Compact_Size\<close>: \<open>read_compact_size\<close> as the source has it, the canonical encoder
    \<open>compact_size\<close> of the specification, and the four forms on the wire as the datatype
    \<open>cs_form\<close>. The theorems: every form is read as its value, canonical or not; decoding
    inverts encoding; the boundary values; the canonical encoding is the shortest; a value
    cut short reads as 0.
  \<^item> \<open>Wire_Format\<close>: the complete encoder of the specification, \<open>encode_tx\<close>, which the
    source does not have; it is the abstract specification the decoder is measured
    against. The 60-byte scenario of the specification as \<open>scenario_tx\<close> and
    \<open>scenario_bytes\<close>.
  \<^item> \<open>Decoder\<close>: \<open>try_from\<close> with its two loops (\<open>read_inputs\<close>, \<open>read_outputs\<close>, recursive
    on the count, the vector an accumulator), their bodies (\<open>read_input\<close>, \<open>read_output\<close>),
    \<open>read_scriptsig\<close>, and the two allocations whose size comes from the input
    (\<open>vec_with_capacity\<close>, \<open>vec_zeroed\<close>). The lemmas run the decoder forwards from the
    results of its reads (\<open>try_from_steps\<close>) and backwards from its result
    (\<open>try_from_OkE\<close>); the theorems give the invariant of a returned transaction, the
    10-byte floor, and that above the floor the decoder reports no error at all.
  \<^item> \<open>Roundtrip\<close>: the refinement of the wire format by the decoder, field by field
    (\<open>read_field\<close>, \<open>read_script\<close>, \<open>read_input_encode\<close>, \<open>read_inputs_encode\<close>, and the
    same for outputs), up to the round trip of a whole transaction; the byte order of
    transaction ids.
  \<^item> \<open>Truncated_Input\<close>: what the decoder returns on input that ends too early (zero-filled
    inputs, zero-filled outputs, lock time 0) and the panics on an input count and on a
    script length that overflow a \<open>Vec\<close>.
  \<^item> \<open>Strict_Decoder\<close>: the decoder of the specification, \<open>decode_strict\<close>, in which a
    short read is an error; it accepts the wire format, the source's decoder agrees with
    it on everything it accepts, and whatever the source returns is the strict decoder's
    transaction unless the strict decoder rejects, in which case the lock time is 0.
  \<^item> \<open>Serialize\<close>: the source's \<open>serialize\<close> (version and lock time only) and the default
    method of the trait (\<open>todo!()\<close>); what it writes, that it is never the wire format
    and that the decoder rejects it.
  \<^item> \<open>Builder\<close>: the record \<open>LegacyTransactionBuilder\<close> and its seven operations; the
    datatype \<open>builder_call\<close> with \<open>apply_call\<close> and \<open>run_calls\<close> for a chain of calls; the
    transaction a chain builds, and that independent setters commute.
  \<^item> \<open>Cli\<close>: \<open>parse_cli_args\<close> with \<open>u64::from_str\<close> (\<open>from_str_u64\<close>); the accepted argument
    lists, the error of every other one, and the amount of a decimal numeral.
  \<^item> This theory: the property that spans components, the round trip of the transactions
    a chain of builder calls produces.

  \<^bold>\<open>Correspondence with the code.\<close> Every operation is one definition with the name the
  source gives it, written with \<open>let\<close> in the order of the source's statements, so that it
  can be read side by side with the function it models. A mutable variable that is
  assigned again is bound again; the cursor, which the source mutates through a
  reference, is passed in and returned. The names \<open>builder_version\<close> and
  \<open>builder_lock_time\<close> stand for the builder's methods \<open>version\<close> and \<open>lock_time\<close>, whose
  names are the record fields here; \<open>value_sats\<close>, \<open>point_x\<close> and \<open>point_y\<close> stand for the
  fields \<open>value\<close>, \<open>x\<close> and \<open>y\<close>. In this theory the fields of the transaction are written
  \<open>LegacyTransaction.version\<close> and so on, since the builder has fields of the same names.

  \<^bold>\<open>Assumptions of the model.\<close>
  \<^item> The target is a 64-bit platform: \<open>usize\<close> has 64 bits, \<open>isize_MAX\<close> is \<open>2^63 - 1\<close>,
    a \<open>TxInput\<close> takes 64 bytes and a \<open>TxOutput\<close> 32 (\<open>size_of_TxInput\<close>,
    \<open>size_of_TxOutput\<close>), so that the casts \<open>as usize\<close> of the source lose nothing.
  \<^item> A \<open>read_exact\<close> that finds too few bytes leaves the caller's buffer as it was and
    moves the cursor to the end of the data, as the standard library does since Rust
    1.80. The source looks at no result of a read, so this is what decides the decoder's
    behaviour on truncated input.
  \<^item> Memory is unbounded. The only panics of the model are the ones that do not depend on
    the memory there is: a capacity above \<open>isize::MAX\<close> bytes in \<open>Vec::with_capacity\<close> and
    in \<open>vec![0u8; n]\<close> (\<open>CapacityOverflow\<close>) and \<open>todo!()\<close> (\<open>NotYetImplemented\<close>). A real run
    aborts earlier where an allocation fails; the growth of the output vector by \<open>push\<close>
    is not bounded in the model.
  \<^item> No fuel is needed: both loops of the decoder recurse on their count, and the digit
    loop of \<open>from_str_u64\<close> on its string, so every definition is total and evaluates.

  \<^bold>\<open>What the theorems show.\<close> The decoder inverts the wire format of the specification on
  every well-formed transaction and ignores what follows it (theory \<open>Roundtrip\<close>), in
  particular on everything the builder produces (this theory); it agrees
  with the strict decoder of the specification wherever that one succeeds, non-canonical
  CompactSize values included (theory \<open>Strict_Decoder\<close>); it reverses transaction ids; it returns only
  well-formed transactions. Against the specification, which asks for truncated input to
  be rejected and for no panic: above 10 bytes the decoder rejects nothing (theory
  \<open>Decoder\<close>), a 10-byte buffer can decode to \<open>2^32 - 1\<close> all-zero inputs, input cut
  inside the first output decodes to as many all-zero outputs as announced, a cut-off
  lock time reads as 0, and a large input count or script length panics (theory
  \<open>Truncated_Input\<close>). The
  source's \<open>serialize\<close> writes 8 bytes, which its own decoder always rejects (theory
  \<open>Serialize\<close>). The parser accepts exactly the three-element lists that start with
  \<open>send\<close> and a parsable amount or with \<open>balance\<close> (theory \<open>Cli\<close>).

  \<^bold>\<open>Not modelled.\<close> The derived traits (\<open>Debug\<close>, \<open>Clone\<close>, \<open>PartialEq\<close>: equality of
  records is HOL's), the \<open>Display\<close> formatting machinery beyond the message strings, the
  allocator, and text encoding (\<open>String\<close> is a list of characters).
\<close>

section \<open>Builder and codec\<close>

text \<open>
  Claim C18. The round trip of the specification for the transactions the builder
  produces, stated on the calls: whatever calls are made on the builder, in whatever
  order, decoding the wire format of the built transaction (and whatever bytes follow
  it) gives the transaction the calls describe: the last version set (1 if none), the
  inputs and the outputs in the order they were added, the last lock time set (0 if
  none). The inputs and outputs that were added must be well formed (32-byte ids,
  scripts and vectors of a size a \<open>Vec\<close> can have).
\<close>

theorem builder_roundtrip:
  assumes "list_all wf_input (inputs_of cs)" and "list_all wf_output (outputs_of cs)"
    and "length (inputs_of cs) * size_of_TxInput \<le> isize_MAX"
    and "length (outputs_of cs) * size_of_TxOutput \<le> isize_MAX"
  shows "try_from (encode_tx (run_calls cs) @ rest)
    = Returns (Ok \<lparr>LegacyTransaction.version = last_or 1 (versions_of cs),
        inputs = inputs_of cs, outputs = outputs_of cs,
        lock_time = last_or 0 (lock_times_of cs)\<rparr>)"
proof -
  have "run_calls cs = \<lparr>LegacyTransaction.version = last_or 1 (versions_of cs),
      inputs = inputs_of cs, outputs = outputs_of cs,
      lock_time = last_or 0 (lock_times_of cs)\<rparr>"
    by (simp add: run_calls_unfold)
  with try_from_encode [OF run_calls_wf [OF assms], of rest] show ?thesis
    by (simp add: encode_tx_split)
qed

theorem builder_roundtrip_witness:
  "list_all wf_input (inputs_of [LockTime 7, AddInput zero_input, Version 2,
       AddOutput zero_output, AddInput (zero_input\<lparr>sequence := 5\<rparr>), LockTime 500000])
   \<and> list_all wf_output (outputs_of [LockTime 7, AddInput zero_input, Version 2,
       AddOutput zero_output, AddInput (zero_input\<lparr>sequence := 5\<rparr>), LockTime 500000])
   \<and> try_from (encode_tx (run_calls [LockTime 7, AddInput zero_input, Version 2,
       AddOutput zero_output, AddInput (zero_input\<lparr>sequence := 5\<rparr>), LockTime 500000]) @ [9])
     = Returns (Ok \<lparr>LegacyTransaction.version = 2,
         inputs = [zero_input, zero_input\<lparr>sequence := 5\<rparr>],
         outputs = [zero_output], lock_time = 500000\<rparr>)"
  using builder_roundtrip [of "[LockTime 7, AddInput zero_input, Version 2,
       AddOutput zero_output, AddInput (zero_input\<lparr>sequence := 5\<rparr>), LockTime 500000]" "[9]"]
  by (simp add: zero_input_def zero_output_def wf_input_def wf_output_def wf_outpoint_def
      isize_MAX_def size_of_TxInput_def size_of_TxOutput_def)

end
